theory Spec2Isabelle
  imports Main "HOL-Library.Word"
begin

unbundle bit_operations_syntax

section \<open>Bytes, exceptions and the library primitives the signers call\<close>

text \<open>
  The three scripts are thin compositions of library calls. A \<open>Buffer\<close> or
  \<open>Uint8Array\<close> is a list of bytes, a thrown exception is the left summand of the
  result. The libraries themselves (asn1.js, bn.js, Node's Buffer) are dependencies
  of the repository; each primitive below states the behaviour of the one call the
  scripts make of it.
\<close>

type_synonym byte = "8 word"

datatype error =
    ReporterError    \<comment> \<open>asn1.js: a decoding error, thrown because the \<open>partial\<close> option is off\<close>
  | AssertionError   \<comment> \<open>bn.js: \<open>assert(byteLength <= reqLength)\<close> in \<open>toArray\<close>\<close>
  | RangeError       \<comment> \<open>\<open>TypedArray.prototype.set\<close>, \<open>Buffer.readUInt8\<close>: an offset out of range\<close>
  | TypeError        \<comment> \<open>\<open>Buffer.from(undefined, "base64")\<close>\<close>
  | CryptoError      \<comment> \<open>Node's \<open>crypto\<close>: \<open>createPublicKey\<close> rejects the key\<close>
  | BackendError     \<comment> \<open>a rejected promise of a backend call\<close>

subsection \<open>bn.js: big numbers from and to big-endian bytes\<close>

text \<open>\<open>new BN(raw)\<close> on a byte array: the unsigned big-endian value; the empty array is 0.\<close>

definition bn_of_bytes :: "byte list \<Rightarrow> nat" where
  "bn_of_bytes bs = foldl (\<lambda>acc b. acc * 256 + unat b) 0 bs"

text \<open>The significant bytes of a number, most significant first; none for 0.\<close>

function be_bytes :: "nat \<Rightarrow> byte list" where
  "be_bytes n = (if n = 0 then [] else be_bytes (n div 256) @ [of_nat (n mod 256)])"
  by pat_completeness auto
termination
  by (relation "measure id") auto

declare be_bytes.simps [simp del]

definition byteLength :: "nat \<Rightarrow> nat" where
  "byteLength n = length (be_bytes n)"

text \<open>
  \<open>BN.prototype.toArray(endian, length)\<close> with \<open>endian = "be"\<close>:
  \<^verbatim>\<open>
  var byteLength = this.byteLength();
  var reqLength = length || Math.max(1, byteLength);
  assert(byteLength <= reqLength, 'byte array longer than desired length');
  \<close>
  then \<open>reqLength - byteLength\<close> zero bytes followed by the significant bytes.
\<close>

definition toArray :: "nat \<Rightarrow> nat \<Rightarrow> error + byte list" where
  "toArray n len =
     (let reqLength = (if len = 0 then max 1 (byteLength n) else len)
      in if \<not> byteLength n \<le> reqLength then Inl AssertionError
         else Inr (replicate (reqLength - byteLength n) 0 @ be_bytes n))"

text \<open>
  \<open>target.set(source, offset)\<close> on a \<open>Uint8Array\<close>: a \<open>RangeError\<close> when the
  source does not fit, the bytes overwritten in place otherwise.
\<close>

definition Uint8Array_set :: "byte list \<Rightarrow> byte list \<Rightarrow> nat \<Rightarrow> error + byte list" where
  "Uint8Array_set target source off =
     (if off + length source > length target then Inl RangeError
      else Inr (take off target @ source @ drop (off + length source) target))"

subsection \<open>Node's Buffer and String: hex, base64, base64url, split\<close>

text \<open>\<open>buffer.toString("hex")\<close>: two lower-case digits for each byte.\<close>

definition hex_digit :: "nat \<Rightarrow> char" where
  "hex_digit n = ''0123456789abcdef'' ! n"

definition toString_hex :: "byte list \<Rightarrow> string" where
  "toString_hex bs = concat (map (\<lambda>b. [hex_digit (unat b div 16), hex_digit (unat b mod 16)]) bs)"

text \<open>
  The two alphabets of RFC 4648. \<open>buffer.toString("base64")\<close> pads the last group
  with \<open>=\<close>; \<open>buffer.toString("base64url")\<close> uses \<open>-\<close> and \<open>_\<close> and does
  not pad.
\<close>

definition base64_char :: "nat \<Rightarrow> char" where
  "base64_char n =
     (if n < 26 then char_of (65 + n) else if n < 52 then char_of (71 + n)
      else if n < 62 then char_of (n - 4) else if n = 62 then CHR ''+'' else CHR ''/'')"

definition base64url_char :: "nat \<Rightarrow> char" where
  "base64url_char n =
     (if n < 26 then char_of (65 + n) else if n < 52 then char_of (71 + n)
      else if n < 62 then char_of (n - 4) else if n = 62 then CHR ''-'' else CHR ''_'')"

fun encode_groups :: "(nat \<Rightarrow> char) \<Rightarrow> bool \<Rightarrow> byte list \<Rightarrow> string" where
  "encode_groups ch pad [] = []"
| "encode_groups ch pad [a] =
     [ch (unat a div 4), ch (unat a mod 4 * 16)] @ (if pad then ''=='' else [])"
| "encode_groups ch pad [a, b] =
     [ch (unat a div 4), ch (unat a mod 4 * 16 + unat b div 16), ch (unat b mod 16 * 4)]
     @ (if pad then ''='' else [])"
| "encode_groups ch pad (a # b # c # rest) =
     [ch (unat a div 4), ch (unat a mod 4 * 16 + unat b div 16),
      ch (unat b mod 16 * 4 + unat c div 64), ch (unat c mod 64)]
     @ encode_groups ch pad rest"

definition toString_base64 :: "byte list \<Rightarrow> string" where
  "toString_base64 bs = encode_groups base64_char True bs"

definition toString_base64url :: "byte list \<Rightarrow> string" where
  "toString_base64url bs = encode_groups base64url_char False bs"

text \<open>
  \<open>Buffer.from(text, "base64")\<close> never throws on a string: it accepts both
  alphabets, skips every other character and stops at the first \<open>=\<close>. Four
  characters give three bytes; a last group of three gives two, of two gives one.
\<close>

definition unbase64 :: "char \<Rightarrow> nat option" where
  "unbase64 c =
     (let n = (of_char c :: nat) in
      if 65 \<le> n \<and> n \<le> 90 then Some (n - 65)
      else if 97 \<le> n \<and> n \<le> 122 then Some (n - 71)
      else if 48 \<le> n \<and> n \<le> 57 then Some (n + 4)
      else if c = CHR ''+'' \<or> c = CHR ''-'' then Some 62
      else if c = CHR ''/'' \<or> c = CHR ''_'' then Some 63
      else None)"

fun decode_groups :: "nat list \<Rightarrow> byte list" where
  "decode_groups (a # b # c # d # rest) =
     [of_nat (a * 4 + b div 16), of_nat (b mod 16 * 16 + c div 4), of_nat (c mod 4 * 64 + d)]
     @ decode_groups rest"
| "decode_groups [a, b, c] = [of_nat (a * 4 + b div 16), of_nat (b mod 16 * 16 + c div 4)]"
| "decode_groups [a, b] = [of_nat (a * 4 + b div 16)]"
| "decode_groups _ = []"

definition sextets :: "string \<Rightarrow> nat list" where
  "sextets text = List.map_filter unbase64 (takeWhile (\<lambda>c. c \<noteq> CHR ''='') text)"

definition from_base64 :: "string \<Rightarrow> byte list" where
  "from_base64 text = decode_groups (sextets text)"

text \<open>
  \<open>text.split(":")\<close>: the fields between the separators, one more than there are
  separators; \<open>fields[i]\<close> is \<open>undefined\<close> (here \<open>None\<close>) past the end.
\<close>

fun String_split :: "char \<Rightarrow> string \<Rightarrow> string list" where
  "String_split sep [] = [[]]"
| "String_split sep (c # cs) =
     (if c = sep then [] # String_split sep cs
      else (case String_split sep cs of
              [] \<Rightarrow> [[c]]
            | field # fields \<Rightarrow> (c # field) # fields))"

definition index :: "'a list \<Rightarrow> nat \<Rightarrow> 'a option" where
  "index xs i = (if i < length xs then Some (xs ! i) else None)"

subsection \<open>keccak256: the Keccak-256 digest of a byte array\<close>

text \<open>
  \<open>keccak256(bytes)\<close> of the npm package is Keccak-256 as submitted to the SHA-3
  competition (padding byte \<open>0x01\<close>, rate 136 bytes, 32 bytes of output). A lane
  is a 64-bit value, held as an integer below \<open>2 ^ 64\<close> with the wrap-around
  written out; the state is 25 lanes, lane \<open>(x, y)\<close> at position \<open>x + 5 * y\<close>.
\<close>

definition rotl64 :: "nat \<Rightarrow> int \<Rightarrow> int" where
  "rotl64 n w = (w * 2 ^ n) mod 2 ^ 64 + w div 2 ^ (64 - n)"

definition not64 :: "int \<Rightarrow> int" where
  "not64 w = 2 ^ 64 - 1 - w"

definition round_constants :: "int list" where
  "round_constants =
    [0x0000000000000001, 0x0000000000008082, 0x800000000000808A, 0x8000000080008000,
     0x000000000000808B, 0x0000000080000001, 0x8000000080008081, 0x8000000000008009,
     0x000000000000008A, 0x0000000000000088, 0x0000000080008009, 0x000000008000000A,
     0x000000008000808B, 0x800000000000008B, 0x8000000000008089, 0x8000000000008003,
     0x8000000000008002, 0x8000000000000080, 0x000000000000800A, 0x800000008000000A,
     0x8000000080008081, 0x8000000000008080, 0x0000000080000001, 0x8000000080008008]"

fun rows :: "'a list \<Rightarrow> 'a list list" where
  "rows (a # b # c # d # e # rest) = [a, b, c, d, e] # rows rest"
| "rows _ = []"

definition xor_row :: "int list \<Rightarrow> int list \<Rightarrow> int list" where
  "xor_row r1 r2 = map2 (XOR) r1 r2"

fun theta_d :: "int list \<Rightarrow> int list" where
  "theta_d [c0, c1, c2, c3, c4] =
     [c4 XOR rotl64 1 c1, c0 XOR rotl64 1 c2, c1 XOR rotl64 1 c3, c2 XOR rotl64 1 c4, c3 XOR rotl64 1 c0]"
| "theta_d _ = []"

definition theta :: "int list \<Rightarrow> int list" where
  "theta a =
     (let d = theta_d (foldl xor_row [0, 0, 0, 0, 0] (rows a))
      in concat (map (\<lambda>row. xor_row row d) (rows a)))"

text \<open>\<open>\<rho>\<close> and \<open>\<pi>\<close>: lane \<open>i\<close> of the result is the lane at the first component
  of entry \<open>i\<close>, rotated left by the second.\<close>
definition rho_pi_table :: "(nat \<times> nat) list" where
  "rho_pi_table =
    [(0, 0), (6, 44), (12, 43), (18, 21), (24, 14),
     (3, 28), (9, 20), (10, 3), (16, 45), (22, 61),
     (1, 1), (7, 6), (13, 25), (19, 8), (20, 18),
     (4, 27), (5, 36), (11, 10), (17, 15), (23, 56),
     (2, 62), (8, 55), (14, 39), (15, 41), (21, 2)]"

definition rho_pi :: "int list \<Rightarrow> int list" where
  "rho_pi a = map (\<lambda>(src, r). rotl64 r (a ! src)) rho_pi_table"

fun chi_row :: "int list \<Rightarrow> int list" where
  "chi_row [b0, b1, b2, b3, b4] =
     [b0 XOR (not64 b1 AND b2), b1 XOR (not64 b2 AND b3), b2 XOR (not64 b3 AND b4),
      b3 XOR (not64 b4 AND b0), b4 XOR (not64 b0 AND b1)]"
| "chi_row _ = []"

definition chi :: "int list \<Rightarrow> int list" where
  "chi b = concat (map chi_row (rows b))"

definition iota :: "int \<Rightarrow> int list \<Rightarrow> int list" where
  "iota rc a = (case a of [] \<Rightarrow> [] | l # ls \<Rightarrow> (l XOR rc) # ls)"

definition keccak_round :: "int list \<Rightarrow> int \<Rightarrow> int list" where
  "keccak_round a rc = iota rc (chi (rho_pi (theta a)))"

definition keccak_f :: "int list \<Rightarrow> int list" where
  "keccak_f a = foldl keccak_round a round_constants"

definition lane_of_bytes :: "byte list \<Rightarrow> int" where
  "lane_of_bytes bs = foldr (\<lambda>b acc. acc * 256 + uint b) bs 0"

fun bytes_of_lane :: "nat \<Rightarrow> int \<Rightarrow> byte list" where
  "bytes_of_lane 0 l = []"
| "bytes_of_lane (Suc k) l = of_int (l mod 256) # bytes_of_lane k (l div 256)"

fun chunks :: "nat \<Rightarrow> 'a list \<Rightarrow> 'a list list" where
  "chunks n [] = []"
| "chunks n (x # xs) = (if n = 0 then [] else take n (x # xs) # chunks n (drop n (x # xs)))"

definition keccak_pad :: "byte list \<Rightarrow> byte list" where
  "keccak_pad m =
     (let q = 136 - length m mod 136
      in if q = 1 then m @ [0x81] else m @ [0x01] @ replicate (q - 2) 0 @ [0x80])"

definition absorb :: "int list \<Rightarrow> byte list \<Rightarrow> int list" where
  "absorb st block =
     keccak_f (xor_row st (map lane_of_bytes (chunks 8 block) @ replicate 8 0))"

definition keccak256 :: "byte list \<Rightarrow> byte list" where
  "keccak256 m = take 32 (concat (map (bytes_of_lane 8) (foldl absorb (replicate 25 0) (chunks 136 (keccak_pad m)))))"

subsection \<open>asn1.js: the DER decoder, on the schema \<open>EcdsaSig\<close>\<close>

text \<open>
  A call either returns, throws, or does not return at all: \<open>Some (Inr v)\<close>,
  \<open>Some (Inl e)\<close> and \<open>None\<close>.
\<close>

definition and_then :: "(error + 'a) option \<Rightarrow> ('a \<Rightarrow> (error + 'b) option) \<Rightarrow> (error + 'b) option" where
  "and_then m f = (case m of None \<Rightarrow> None | Some (Inl e) \<Rightarrow> Some (Inl e) | Some (Inr v) \<Rightarrow> f v)"

text \<open>
  A \<open>DecoderBuffer\<close> is a window on the bytes it was made from: the bytes
  (\<open>base\<close>), where the next read is (\<open>offset\<close>) and where the window ends
  (\<open>length\<close>). The buffers cut out of a buffer share its bytes.
\<close>

record DecoderBuffer =
  buf_base :: "byte list"  \<comment> \<open>the field \<open>base\<close>\<close>
  buf_offset :: int        \<comment> \<open>the field \<open>offset\<close>\<close>
  buf_length :: int        \<comment> \<open>the field \<open>length\<close>\<close>

definition new_DecoderBuffer :: "byte list \<Rightarrow> DecoderBuffer" where
  "new_DecoderBuffer data = \<lparr>buf_base = data, buf_offset = 0, buf_length = int (length data)\<rparr>"

text \<open>
  \<open>buffer.readUInt8(fail)\<close>:
  \<^verbatim>\<open>
  if (this.offset + 1 <= this.length)
    return this.base.readUInt8(this.offset++, true);
  else
    return this.error(fail || 'DecoderBuffer overrun');
  \<close>
  The reporter throws the error. Node's \<open>readUInt8\<close> throws a \<open>RangeError\<close> for
  an offset outside the bytes, which here can only be a negative one.
\<close>

definition readUInt8 :: "DecoderBuffer \<Rightarrow> error + (byte \<times> DecoderBuffer)" where
  "readUInt8 buffer =
     (if buf_offset buffer + 1 \<le> buf_length buffer
      then (if buf_offset buffer < 0 \<or> int (length (buf_base buffer)) \<le> buf_offset buffer
            then Inl RangeError
            else Inr (buf_base buffer ! nat (buf_offset buffer),
                      buffer\<lparr>buf_offset := buf_offset buffer + 1\<rparr>))
      else Inl ReporterError)"

text \<open>
  \<open>buffer.skip(bytes, fail)\<close> gives the next \<open>bytes\<close> bytes as a buffer of their
  own and moves past them: \<open>(the new buffer, the buffer afterwards)\<close>.
  \<^verbatim>\<open>
  if (!(this.offset + bytes <= this.length))
    return this.error(fail || 'DecoderBuffer overrun');
  const res = new DecoderBuffer(this.base);
  res.offset = this.offset;
  res.length = this.offset + bytes;
  this.offset += bytes;
  return res;
  \<close>
  Nothing keeps \<open>bytes\<close> from being negative: the new buffer then ends before it
  starts, and the offset moves back.
\<close>

definition skip :: "DecoderBuffer \<Rightarrow> int \<Rightarrow> error + (DecoderBuffer \<times> DecoderBuffer)" where
  "skip buffer bytes =
     (if \<not> buf_offset buffer + bytes \<le> buf_length buffer then Inl ReporterError
      else Inr (buffer\<lparr>buf_length := buf_offset buffer + bytes\<rparr>,
                buffer\<lparr>buf_offset := buf_offset buffer + bytes\<rparr>))"

text \<open>
  \<open>buffer.raw()\<close> is \<open>this.base.slice(this.offset, this.length)\<close>. Node's
  \<open>slice\<close> counts a negative index from the end, keeps both indices within the
  bytes, and gives nothing when the end is not after the start.
\<close>

definition adjustOffset :: "int \<Rightarrow> nat \<Rightarrow> nat" where
  "adjustOffset i n = (if i < 0 then nat (max 0 (i + int n)) else min (nat i) n)"

definition Buffer_slice :: "byte list \<Rightarrow> int \<Rightarrow> int \<Rightarrow> byte list" where
  "Buffer_slice bs start stop =
     (let s = adjustOffset start (length bs); e = adjustOffset stop (length bs)
      in take (e - s) (drop s bs))"

definition raw :: "DecoderBuffer \<Rightarrow> byte list" where
  "raw buffer = Buffer_slice (buf_base buffer) (buf_offset buffer) (buf_length buffer)"

text \<open>
  \<open>derDecodeTag\<close>: the first octet gives the primitive bit and the tag number; a
  tag number of 31 announces a multi-octet tag, read seven bits at a time while the
  octet before has its top bit set. The tag number is a JavaScript 32-bit integer.
\<close>

function multiOctetTag :: "byte \<Rightarrow> 32 word \<Rightarrow> DecoderBuffer \<Rightarrow> error + (32 word \<times> DecoderBuffer)" where
  "multiOctetTag oct tag buffer =
     (if oct AND 0x80 = 0x80
      then (case readUInt8 buffer of
              Inl e \<Rightarrow> Inl e
            | Inr (oct', buffer') \<Rightarrow>
                multiOctetTag oct' (push_bit 7 tag OR ucast (oct' AND 0x7f)) buffer')
      else Inr (tag, buffer))"
  by pat_completeness auto
termination
  by (relation "measure (\<lambda>(oct, tag, buffer). nat (buf_length buffer - buf_offset buffer))")
    (auto simp add: readUInt8_def split: if_splits)

declare multiOctetTag.simps [simp del]

definition derDecodeTag :: "DecoderBuffer \<Rightarrow> error + (bool \<times> 32 word \<times> DecoderBuffer)" where
  "derDecodeTag buffer =
     (case readUInt8 buffer of
        Inl e \<Rightarrow> Inl e
      | Inr (tag, buffer1) \<Rightarrow>
          let primitive = (tag AND 0x20 = 0) in
          if tag AND 0x1f = 0x1f
          then (case multiOctetTag tag 0 buffer1 of
                  Inl e \<Rightarrow> Inl e
                | Inr (t, buffer2) \<Rightarrow> Inr (primitive, t, buffer2))
          else Inr (primitive, ucast (tag AND 0x1f), buffer1))"

text \<open>
  \<open>derDecodeLen\<close>: \<open>None\<close> is the indefinite form (\<open>null\<close> in the library),
  allowed on a constructed value only; the short form is the octet itself; the long
  form has at most four length octets, shifted into a JavaScript 32-bit integer,
  which is negative when the first of four has its top bit set.
\<close>

fun longFormLen :: "nat \<Rightarrow> 32 word \<Rightarrow> DecoderBuffer \<Rightarrow> error + (32 word \<times> DecoderBuffer)" where
  "longFormLen 0 len buffer = Inr (len, buffer)"
| "longFormLen (Suc i) len buffer =
     (case readUInt8 buffer of
        Inl e \<Rightarrow> Inl e
      | Inr (j, buffer') \<Rightarrow> longFormLen i (push_bit 8 len OR ucast j) buffer')"

definition derDecodeLen :: "DecoderBuffer \<Rightarrow> bool \<Rightarrow> error + (int option \<times> DecoderBuffer)" where
  "derDecodeLen buffer primitive =
     (case readUInt8 buffer of
        Inl e \<Rightarrow> Inl e
      | Inr (len, buffer1) \<Rightarrow>
          if \<not> primitive \<and> len = 0x80 then Inr (None, buffer1)
          else if len AND 0x80 = 0 then Inr (Some (uint len), buffer1)
          else let num = unat (len AND 0x7f) in
               if num > 4 then Inl ReporterError
               else (case longFormLen num 0 buffer1 of
                       Inl e \<Rightarrow> Inl e
                     | Inr (l, buffer2) \<Rightarrow> Inr (Some (sint l), buffer2)))"

text \<open>
  \<open>_skipUntilEnd\<close> walks the values of an indefinite-length body up to its
  end-of-contents value (tag number 0), going into the indefinite-length values
  inside:
  \<^verbatim>\<open>
  for (;;) {
    const tag = derDecodeTag(buffer, fail);
    if (buffer.isError(tag)) return tag;
    const len = derDecodeLen(buffer, tag.primitive, fail);
    if (buffer.isError(len)) return len;
    let res;
    if (tag.primitive || len !== null) res = buffer.skip(len);
    else res = this._skipUntilEnd(buffer, fail);
    if (buffer.isError(res)) return res;
    if (tag.tagStr === 'end') break;
  }
  \<close>
  A negative length moves the buffer back, so the loop need not end: the function
  is partial, \<open>None\<close> where it does not return. The result is the buffer where the
  walk stopped.
\<close>

partial_function (option) skipUntilEnd :: "DecoderBuffer \<Rightarrow> (error + DecoderBuffer) option" where
  "skipUntilEnd buffer =
     (case derDecodeTag buffer of
        Inl e \<Rightarrow> Some (Inl e)
      | Inr (primitive, tag, buffer1) \<Rightarrow>
          (case derDecodeLen buffer1 primitive of
             Inl e \<Rightarrow> Some (Inl e)
           | Inr (len, buffer2) \<Rightarrow>
               Option.bind
                 (case len of
                    Some n \<Rightarrow> Some (map_sum id snd (skip buffer2 n))
                  | None \<Rightarrow> skipUntilEnd buffer2)
                 (\<lambda>res. case res of
                          Inl e \<Rightarrow> Some (Inl e)
                        | Inr buffer3 \<Rightarrow>
                            if tag = 0 then Some (Inr buffer3) else skipUntilEnd buffer3)))"

declare skipUntilEnd.simps [code]

text \<open>
  \<open>_decodeTag(buffer, tag)\<close>: the tag and the length are read first, then the tag
  number is compared with the expected one (the class and the constructed bit are
  not), then the body is cut out: \<open>(body, the buffer afterwards)\<close>. The body of an
  indefinite-length value runs to where \<open>_skipUntilEnd\<close> stopped.
\<close>

definition decodeTag ::
  "DecoderBuffer \<Rightarrow> 32 word \<Rightarrow> (error + (DecoderBuffer \<times> DecoderBuffer)) option" where
  "decodeTag buffer tag =
     (case derDecodeTag buffer of
        Inl e \<Rightarrow> Some (Inl e)
      | Inr (primitive, t, buffer1) \<Rightarrow>
          (case derDecodeLen buffer1 primitive of
             Inl e \<Rightarrow> Some (Inl e)
           | Inr (len, buffer2) \<Rightarrow>
               if t \<noteq> tag then Some (Inl ReporterError)
               else (case len of
                       Some n \<Rightarrow> Some (skip buffer2 n)
                     | None \<Rightarrow>
                         and_then (skipUntilEnd buffer2)
                           (\<lambda>buffer3. Some (skip buffer2 (buf_offset buffer3 - buf_offset buffer2))))))"

text \<open>
  The schema of the script:
  \<^verbatim>\<open>
  const EcdsaSig = asn1.define("EcdsaSig", function () {
    this.seq().obj(this.key("r").int(), this.key("s").int());
  });
  \<close>
  \<open>EcdsaSig.decode(signature, "der")\<close> reads a value with tag number 16, then in
  its body two values with tag number 2, each turned into a \<open>BN\<close> from its raw
  bytes. What follows the second integer, in the body or after the sequence, is not
  looked at.
\<close>

definition seq_tag :: "32 word" where "seq_tag = 0x10"
definition int_tag :: "32 word" where "int_tag = 0x02"

definition EcdsaSig_decode :: "byte list \<Rightarrow> (error + (nat \<times> nat)) option" where
  "EcdsaSig_decode data =
     and_then (decodeTag (new_DecoderBuffer data) seq_tag) (\<lambda>(body, _).
     and_then (decodeTag body int_tag) (\<lambda>(r_buffer, body1).
     and_then (decodeTag body1 int_tag) (\<lambda>(s_buffer, _).
     Some (Inr (bn_of_bytes (raw r_buffer), bn_of_bytes (raw s_buffer))))))"

section \<open>The cloud-KMS signer: gcp-hedera-hsm.js\<close>

text \<open>
  Lines 58 to 63 of \<open>kmsSigner\<close>, from the bytes of the backend's answer to the
  bytes the signer returns:
  \<^verbatim>\<open>
  const { r, s } = EcdsaSig.decode(signResponse.signature, "der");
  const signature = new Uint8Array(64);
  signature.set(r.toArray("be", 32), 0);
  signature.set(s.toArray("be", 32), 32);
  return signature;
  \<close>
\<close>

definition kmsSigner_signature :: "byte list \<Rightarrow> (error + byte list) option" where
  "kmsSigner_signature response_signature =
     and_then (EcdsaSig_decode response_signature) (\<lambda>(r, s).
       let signature = replicate 64 0 in
       Some (case toArray r 32 of
               Inl e \<Rightarrow> Inl e
             | Inr r_bytes \<Rightarrow>
                 (case Uint8Array_set signature r_bytes 0 of
                    Inl e \<Rightarrow> Inl e
                  | Inr signature1 \<Rightarrow>
                      (case toArray s 32 of
                         Inl e \<Rightarrow> Inl e
                       | Inr s_bytes \<Rightarrow> Uint8Array_set signature1 s_bytes 32))))"

text \<open>
  The libraries and services around the scripts are parameters. Node's \<open>crypto\<close>
  gives \<open>createPublicKey\<close> (from a JWK, from a PEM text) and the SPKI DER export
  of a key object; a backend is what it answers to each request. Every request a
  function sends is appended to a log of calls, which it takes and returns.
\<close>

record 'c JsonWebKey =
  kty :: string
  crv :: string
  x_coord :: 'c  \<comment> \<open>the field \<open>x\<close>\<close>
  y_coord :: 'c  \<comment> \<open>the field \<open>y\<close>\<close>

record 'k node_crypto =
  createPublicKey_jwk :: "string JsonWebKey \<Rightarrow> error + 'k"
  createPublicKey_pem :: "string \<Rightarrow> error + 'k"
  export_spki_der :: "'k \<Rightarrow> byte list"

text \<open>The SDK's key object, made by \<open>PublicKey.fromString\<close> from a text.\<close>

datatype PublicKey = PublicKey_fromString string

text \<open>
  The request of \<open>kmsSigner\<close> is
  \<open>{ name: GCP_KMS_KEY_VERSION, digest: { sha256: digest } }\<close>.
\<close>

record Digest =
  sha256 :: "byte list"

record AsymmetricSignRequest =
  request_name :: string      \<comment> \<open>the field \<open>name\<close>\<close>
  request_digest :: Digest    \<comment> \<open>the field \<open>digest\<close>\<close>

datatype kms_call = GetPublicKey string | AsymmetricSign AsymmetricSignRequest

record kms_backend =
  getPublicKey :: "string \<Rightarrow> error + string"  \<comment> \<open>the \<open>pem\<close> of the answer\<close>
  asymmetricSign :: "AsymmetricSignRequest \<Rightarrow> error + byte list"  \<comment> \<open>its \<open>signature\<close>\<close>

text \<open>
  \<open>kmsSigner\<close>, lines 50 to 64:
  \<^verbatim>\<open>
  const digest = keccak256(bytesToSign);
  const [signResponse] = await kmsClient.asymmetricSign({
    name: GCP_KMS_KEY_VERSION,
    digest: { sha256: digest },
  });
  \<close>
  and then the r/s reconstruction above.
\<close>

definition kmsSigner ::
  "kms_backend \<Rightarrow> string \<Rightarrow> byte list \<Rightarrow> kms_call list
   \<Rightarrow> (error + byte list) option \<times> kms_call list" where
  "kmsSigner kmsClient GCP_KMS_KEY_VERSION bytesToSign calls =
     (let digest = keccak256 bytesToSign;
          request = \<lparr>request_name = GCP_KMS_KEY_VERSION, request_digest = \<lparr>sha256 = digest\<rparr>\<rparr>
      in (case asymmetricSign kmsClient request of
            Inl e \<Rightarrow> (Some (Inl e), calls @ [AsymmetricSign request])
          | Inr signature \<Rightarrow> (kmsSigner_signature signature, calls @ [AsymmetricSign request])))"

text \<open>
  \<open>fetchKmsPublicKey\<close>, lines 70 to 84:
  \<^verbatim>\<open>
  const [kmsPublicKey] = await kmsClient.getPublicKey({ name: GCP_KMS_KEY_VERSION });
  const keyObject = createPublicKey(kmsPublicKey.pem);
  const spkiDer = keyObject.export({ type: "spki", format: "der" });
  const publicKey = PublicKey.fromString(spkiDer.toString("hex"));
  return publicKey;
  \<close>
\<close>

definition fetchKmsPublicKey ::
  "'k node_crypto \<Rightarrow> kms_backend \<Rightarrow> string \<Rightarrow> kms_call list \<Rightarrow> (error + PublicKey) \<times> kms_call list" where
  "fetchKmsPublicKey crypto kmsClient GCP_KMS_KEY_VERSION calls =
     (case getPublicKey kmsClient GCP_KMS_KEY_VERSION of
        Inl e \<Rightarrow> (Inl e, calls @ [GetPublicKey GCP_KMS_KEY_VERSION])
      | Inr pem \<Rightarrow>
          (case createPublicKey_pem crypto pem of
             Inl e \<Rightarrow> (Inl e, calls @ [GetPublicKey GCP_KMS_KEY_VERSION])
           | Inr keyObject \<Rightarrow>
               let spkiDer = export_spki_der crypto keyObject
               in (Inr (PublicKey_fromString (toString_hex spkiDer)),
                   calls @ [GetPublicKey GCP_KMS_KEY_VERSION])))"

section \<open>The HSM-vault signer: azure-hedera-hsm.js\<close>

text \<open>
  The end of \<open>azureSigner\<close>, from the bytes of the backend's answer to the bytes
  the signer returns:
  \<^verbatim>\<open>
  // The signature from Azure is already in the correct format.
  return new Uint8Array(signResponse.result);
  \<close>
  A copy of the bytes, whatever they are.
\<close>

definition azureSigner_signature :: "byte list \<Rightarrow> byte list" where
  "azureSigner_signature result = result"

text \<open>
  The vault answers \<open>getKey\<close> with the key's identifier and its JWK, whose
  coordinates are buffers; \<open>sign\<close> goes through a \<open>CryptographyClient\<close> made
  for a key identifier.
\<close>

record KeyVaultKey =
  key_id :: string                    \<comment> \<open>the field \<open>id\<close>\<close>
  key_jwk :: "byte list JsonWebKey"   \<comment> \<open>the field \<open>key\<close>\<close>

datatype azure_call =
    GetKey string
  | NewCryptographyClient string
  | Sign string string "byte list"  \<comment> \<open>the client's key identifier, the algorithm, the digest\<close>

record azure_vault =
  getKey :: "string \<Rightarrow> error + KeyVaultKey"
  sign :: "string \<Rightarrow> string \<Rightarrow> byte list \<Rightarrow> error + byte list"  \<comment> \<open>the \<open>result\<close> of the answer\<close>

text \<open>
  \<open>azureSigner\<close>, lines 52 to 63:
  \<^verbatim>\<open>
  const cryptoClient = new CryptographyClient(
    (await keyClient.getKey(AZURE_KEY_NAME)).id,
    credential
  );
  const digest = keccak256(bytesToSign);
  const signResponse = await cryptoClient.sign("ES256K", digest);
  // The signature from Azure is already in the correct format.
  return new Uint8Array(signResponse.result);
  \<close>
\<close>

definition azureSigner ::
  "azure_vault \<Rightarrow> string \<Rightarrow> byte list \<Rightarrow> azure_call list \<Rightarrow> (error + byte list) \<times> azure_call list" where
  "azureSigner keyClient AZURE_KEY_NAME bytesToSign calls =
     (case getKey keyClient AZURE_KEY_NAME of
        Inl e \<Rightarrow> (Inl e, calls @ [GetKey AZURE_KEY_NAME])
      | Inr k \<Rightarrow>
          let cryptoClient = key_id k;
              digest = keccak256 bytesToSign;
              calls' = calls @ [GetKey AZURE_KEY_NAME, NewCryptographyClient cryptoClient,
                                Sign cryptoClient ''ES256K'' digest]
          in (case sign keyClient cryptoClient ''ES256K'' digest of
                Inl e \<Rightarrow> (Inl e, calls')
              | Inr result \<Rightarrow> (Inr (azureSigner_signature result), calls')))"

text \<open>
  \<open>fetchAzurePublicKey\<close>, lines 69 to 100. The four assignments to the JWK:
  \<^verbatim>\<open>
  azureJwk.kty = "EC";
  azureJwk.crv = "secp256k1";
  azureJwk.x = azureJwk.x.toString('base64url');
  azureJwk.y = azureJwk.y.toString('base64url');
  \<close>
\<close>

definition rewrite_azureJwk :: "byte list JsonWebKey \<Rightarrow> string JsonWebKey" where
  "rewrite_azureJwk azureJwk =
     \<lparr>kty = ''EC'', crv = ''secp256k1'',
      x_coord = toString_base64url (x_coord azureJwk),
      y_coord = toString_base64url (y_coord azureJwk)\<rparr>"

text \<open>
  \<^verbatim>\<open>
  const azureJwk = (await keyClient.getKey(AZURE_KEY_NAME)).key;
  ...
  const keyObject = createPublicKey({ key: azureJwk, format: "jwk" });
  const spkiDer = keyObject.export({ type: "spki", format: "der" });
  const hederaPublicKey = PublicKey.fromString(spkiDer.toString("hex"));
  return hederaPublicKey;
  \<close>
\<close>

definition fetchAzurePublicKey ::
  "'k node_crypto \<Rightarrow> azure_vault \<Rightarrow> string \<Rightarrow> azure_call list \<Rightarrow> (error + PublicKey) \<times> azure_call list" where
  "fetchAzurePublicKey crypto keyClient AZURE_KEY_NAME calls =
     (case getKey keyClient AZURE_KEY_NAME of
        Inl e \<Rightarrow> (Inl e, calls @ [GetKey AZURE_KEY_NAME])
      | Inr k \<Rightarrow>
          (case createPublicKey_jwk crypto (rewrite_azureJwk (key_jwk k)) of
             Inl e \<Rightarrow> (Inl e, calls @ [GetKey AZURE_KEY_NAME])
           | Inr keyObject \<Rightarrow>
               let spkiDer = export_spki_der crypto keyObject
               in (Inr (PublicKey_fromString (toString_hex spkiDer)),
                   calls @ [GetKey AZURE_KEY_NAME])))"

section \<open>The secret-transit signer\<close>

text \<open>
  The end of \<open>vaultSigner\<close>, from the \<open>signature\<close> string of the backend's
  answer to the bytes the signer returns:
  \<^verbatim>\<open>
  const signature = data.data.signature.split(":")[2];
  return Buffer.from(signature, "base64");
  \<close>
  \<open>Buffer.from(undefined, "base64")\<close> throws a \<open>TypeError\<close>.
\<close>

definition vaultSigner_signature :: "string \<Rightarrow> error + byte list" where
  "vaultSigner_signature signature =
     (case index (String_split CHR '':'' signature) 2 of
        None \<Rightarrow> Inl TypeError
      | Some field \<Rightarrow> Inr (from_base64 field))"

text \<open>
  \<open>vaultSigner\<close>, lines 24 to 32. The transit engine is asked with the base64
  text of the bytes:
  \<^verbatim>\<open>
  const inputData = Buffer.from(bytesToSign).toString("base64");
  const { data } = await axios.post("/v1/transit/sign/hedera-key", {
    input: inputData,
  });
  \<close>
\<close>

datatype vault_call = Post string string  \<comment> \<open>the path, the field \<open>input\<close>\<close>

record transit_backend =
  post :: "string \<Rightarrow> string \<Rightarrow> error + string"  \<comment> \<open>\<open>data.data.signature\<close> of the answer\<close>

definition vaultSigner ::
  "transit_backend \<Rightarrow> byte list \<Rightarrow> vault_call list \<Rightarrow> (error + byte list) \<times> vault_call list" where
  "vaultSigner axios bytesToSign calls =
     (let inputData = toString_base64 bytesToSign;
          calls' = calls @ [Post ''/v1/transit/sign/hedera-key'' inputData]
      in (case post axios ''/v1/transit/sign/hedera-key'' inputData of
            Inl e \<Rightarrow> (Inl e, calls')
          | Inr signature \<Rightarrow> (vaultSigner_signature signature, calls')))"

section \<open>Calling a function several times\<close>

text \<open>One call after the other, each on the log the one before left.\<close>

fun azureSigner_each ::
  "azure_vault \<Rightarrow> string \<Rightarrow> byte list list \<Rightarrow> azure_call list \<Rightarrow> (error + byte list) list \<times> azure_call list" where
  "azureSigner_each keyClient AZURE_KEY_NAME [] calls = ([], calls)"
| "azureSigner_each keyClient AZURE_KEY_NAME (bytesToSign # rest) calls =
     (case azureSigner keyClient AZURE_KEY_NAME bytesToSign calls of
        (result, calls1) \<Rightarrow>
          (case azureSigner_each keyClient AZURE_KEY_NAME rest calls1 of
             (results, calls2) \<Rightarrow> (result # results, calls2)))"

primrec fetchKmsPublicKey_times ::
  "nat \<Rightarrow> 'k node_crypto \<Rightarrow> kms_backend \<Rightarrow> string \<Rightarrow> kms_call list \<Rightarrow> (error + PublicKey) list \<times> kms_call list" where
  "fetchKmsPublicKey_times 0 crypto kmsClient version calls = ([], calls)"
| "fetchKmsPublicKey_times (Suc n) crypto kmsClient version calls =
     (case fetchKmsPublicKey crypto kmsClient version calls of
        (result, calls1) \<Rightarrow>
          (case fetchKmsPublicKey_times n crypto kmsClient version calls1 of
             (results, calls2) \<Rightarrow> (result # results, calls2)))"

primrec fetchAzurePublicKey_times ::
  "nat \<Rightarrow> 'k node_crypto \<Rightarrow> azure_vault \<Rightarrow> string \<Rightarrow> azure_call list \<Rightarrow> (error + PublicKey) list \<times> azure_call list" where
  "fetchAzurePublicKey_times 0 crypto keyClient name calls = ([], calls)"
| "fetchAzurePublicKey_times (Suc n) crypto keyClient name calls =
     (case fetchAzurePublicKey crypto keyClient name calls of
        (result, calls1) \<Rightarrow>
          (case fetchAzurePublicKey_times n crypto keyClient name calls1 of
             (results, calls2) \<Rightarrow> (result # results, calls2)))"

section \<open>Reference encodings, for stating the properties\<close>

text \<open>
  The fixed-width big-endian form of a number: \<open>w\<close> base-256 digits, the most
  significant first.
\<close>

primrec be_fixed :: "nat \<Rightarrow> nat \<Rightarrow> byte list" where
  "be_fixed 0 n = []"
| "be_fixed (Suc w) n = be_fixed w (n div 256) @ [of_nat (n mod 256)]"

text \<open>
  A decoder buffer seen from its bytes: those already read, those of the window
  still to read, and those beyond the window.
\<close>

definition window :: "byte list \<Rightarrow> byte list \<Rightarrow> byte list \<Rightarrow> DecoderBuffer" where
  "window consumed unread beyond =
     \<lparr>buf_base = consumed @ unread @ beyond,
      buf_offset = int (length consumed),
      buf_length = int (length consumed + length unread)\<rparr>"

text \<open>
  What holds of every buffer the decoder makes as long as no length is negative:
  the offset is not negative, and the window ends within the bytes.
\<close>

definition within_base :: "DecoderBuffer \<Rightarrow> bool" where
  "within_base buffer \<longleftrightarrow> 0 \<le> buf_offset buffer \<and> buf_length buffer \<le> int (length (buf_base buffer))"

text \<open>
  DER (X.690) of a value: the tag, the length (one octet below 128, else
  \<open>0x80 + k\<close> and the \<open>k\<close> significant octets of the length), the content.
\<close>

definition der_length :: "nat \<Rightarrow> byte list" where
  "der_length n = (if n < 128 then [of_nat n] else of_nat (128 + byteLength n) # be_bytes n)"

definition der_value :: "byte \<Rightarrow> byte list \<Rightarrow> byte list" where
  "der_value tag content = tag # der_length (length content) @ content"

text \<open>
  The content of a non-negative INTEGER: its significant bytes (one zero byte for
  0), behind a zero byte of sign padding when \<open>pad\<close> is set. DER sets it exactly
  when the first significant byte has its top bit set.
\<close>

definition integer_content :: "bool \<Rightarrow> nat \<Rightarrow> byte list" where
  "integer_content pad n = (if pad then [0] else []) @ (if n = 0 then [0] else be_bytes n)"

definition needs_sign_pad :: "nat \<Rightarrow> bool" where
  "needs_sign_pad n = (case be_bytes n of [] \<Rightarrow> False | b # _ \<Rightarrow> bit b 7)"

text \<open>SEQUENCE { INTEGER r, INTEGER s } with the sign padding of each chosen.\<close>

definition der_signature_padded :: "bool \<Rightarrow> bool \<Rightarrow> nat \<Rightarrow> nat \<Rightarrow> byte list" where
  "der_signature_padded pad_r pad_s r s =
     der_value 0x30 (der_value 0x02 (integer_content pad_r r) @ der_value 0x02 (integer_content pad_s s))"

text \<open>The valid DER signature of \<open>(r, s)\<close>.\<close>

definition der_signature :: "nat \<Rightarrow> nat \<Rightarrow> byte list" where
  "der_signature r s = der_signature_padded (needs_sign_pad r) (needs_sign_pad s) r s"

text \<open>Test vector: 31 bytes with the top bit of the first one clear.\<close>

definition r31 :: "byte list" where
  "r31 = [0x11, 0x12, 0x13, 0x14, 0x15, 0x16, 0x17, 0x18, 0x19, 0x1a, 0x1b, 0x1c, 0x1d, 0x1e, 0x1f,
          0x20, 0x21, 0x22, 0x23, 0x24, 0x25, 0x26, 0x27, 0x28, 0x29, 0x2a, 0x2b, 0x2c, 0x2d, 0x2e, 0x2f]"

subsection \<open>SHA-256 (FIPS 180-4), to compare digests with\<close>

text \<open>
  A word is a 32-bit value, held as an integer below \<open>2 ^ 32\<close>. The constants
  are written in decimal: the first is \<open>0x428a2f98\<close>, the first initial hash
  value \<open>0x6a09e667\<close>.
\<close>

definition rotr32 :: "nat \<Rightarrow> int \<Rightarrow> int" where
  "rotr32 n w = w div 2 ^ n + (w mod 2 ^ n) * 2 ^ (32 - n)"

definition not32 :: "int \<Rightarrow> int" where
  "not32 w = 2 ^ 32 - 1 - w"

definition add32 :: "int \<Rightarrow> int \<Rightarrow> int" where
  "add32 a b = (a + b) mod 2 ^ 32"

definition sha256_k :: "int list" where
  "sha256_k =
    [1116352408, 1899447441, 3049323471, 3921009573, 961987163, 1508970993,
     2453635748, 2870763221, 3624381080, 310598401, 607225278, 1426881987,
     1925078388, 2162078206, 2614888103, 3248222580, 3835390401, 4022224774,
     264347078, 604807628, 770255983, 1249150122, 1555081692, 1996064986,
     2554220882, 2821834349, 2952996808, 3210313671, 3336571891, 3584528711,
     113926993, 338241895, 666307205, 773529912, 1294757372, 1396182291,
     1695183700, 1986661051, 2177026350, 2456956037, 2730485921, 2820302411,
     3259730800, 3345764771, 3516065817, 3600352804, 4094571909, 275423344,
     430227734, 506948616, 659060556, 883997877, 958139571, 1322822218,
     1537002063, 1747873779, 1955562222, 2024104815, 2227730452, 2361852424,
     2428436474, 2756734187, 3204031479, 3329325298]"

definition sha256_h0 :: "int list" where
  "sha256_h0 =
    [1779033703, 3144134277, 1013904242, 2773480762,
     1359893119, 2600822924, 528734635, 1541459225]"

definition small_sigma0 :: "int \<Rightarrow> int" where
  "small_sigma0 w = rotr32 7 w XOR rotr32 18 w XOR w div 2 ^ 3"

definition small_sigma1 :: "int \<Rightarrow> int" where
  "small_sigma1 w = rotr32 17 w XOR rotr32 19 w XOR w div 2 ^ 10"

definition big_sigma0 :: "int \<Rightarrow> int" where
  "big_sigma0 w = rotr32 2 w XOR rotr32 13 w XOR rotr32 22 w"

definition big_sigma1 :: "int \<Rightarrow> int" where
  "big_sigma1 w = rotr32 6 w XOR rotr32 11 w XOR rotr32 25 w"

text \<open>The message schedule, latest word first.\<close>

fun schedule :: "nat \<Rightarrow> int list \<Rightarrow> int list" where
  "schedule 0 w = w"
| "schedule (Suc k) w =
     schedule k (add32 (add32 (small_sigma1 (w ! 1)) (w ! 6)) (add32 (small_sigma0 (w ! 14)) (w ! 15)) # w)"

fun sha256_step :: "int list \<Rightarrow> int \<times> int \<Rightarrow> int list" where
  "sha256_step [a, b, c, d, e, f, g, h] (k, w) =
     (let t1 = add32 (add32 (add32 h (big_sigma1 e)) ((e AND f) XOR (not32 e AND g))) (add32 k w);
          t2 = add32 (big_sigma0 a) ((a AND b) XOR (a AND c) XOR (b AND c))
      in [add32 t1 t2, a, b, c, add32 d t1, e, f, g])"
| "sha256_step st _ = st"

definition word_of_bytes_be :: "byte list \<Rightarrow> int" where
  "word_of_bytes_be bs = foldl (\<lambda>acc b. acc * 256 + uint b) 0 bs"

definition sha256_block :: "int list \<Rightarrow> byte list \<Rightarrow> int list" where
  "sha256_block st block =
     (let w = rev (schedule 48 (rev (map word_of_bytes_be (chunks 4 block))))
      in map2 add32 st (foldl sha256_step st (zip sha256_k w)))"

fun bytes_be :: "nat \<Rightarrow> int \<Rightarrow> byte list" where
  "bytes_be 0 n = []"
| "bytes_be (Suc k) n = bytes_be k (n div 256) @ [of_int (n mod 256)]"

definition sha256_pad :: "byte list \<Rightarrow> byte list" where
  "sha256_pad m =
     m @ [0x80] @ replicate ((119 - length m mod 64) mod 64) 0 @ bytes_be 8 (8 * int (length m))"

definition SHA256 :: "byte list \<Rightarrow> byte list" where
  "SHA256 m = concat (map (bytes_be 4) (foldl sha256_block sha256_h0 (chunks 64 (sha256_pad m))))"

section \<open>Reading a log of calls\<close>

text \<open>How many requests of a kind a log holds, and what the requests carried.\<close>

definition key_fetches :: "azure_call list \<Rightarrow> nat" where
  "key_fetches calls = length (filter (\<lambda>c. case c of GetKey _ \<Rightarrow> True | _ \<Rightarrow> False) calls)"

definition client_constructions :: "azure_call list \<Rightarrow> nat" where
  "client_constructions calls =
     length (filter (\<lambda>c. case c of NewCryptographyClient _ \<Rightarrow> True | _ \<Rightarrow> False) calls)"

definition sign_requests :: "azure_call list \<Rightarrow> nat" where
  "sign_requests calls = length (filter (\<lambda>c. case c of Sign _ _ _ \<Rightarrow> True | _ \<Rightarrow> False) calls)"

definition public_key_fetches :: "kms_call list \<Rightarrow> nat" where
  "public_key_fetches calls =
     length (filter (\<lambda>c. case c of GetPublicKey _ \<Rightarrow> True | _ \<Rightarrow> False) calls)"

definition sha256_fields :: "kms_call list \<Rightarrow> byte list list" where
  "sha256_fields calls =
     concat (map (\<lambda>c. case c of AsymmetricSign request \<Rightarrow> [sha256 (request_digest request)]
                          | _ \<Rightarrow> []) calls)"

definition sign_digests :: "azure_call list \<Rightarrow> byte list list" where
  "sign_digests calls =
     concat (map (\<lambda>c. case c of Sign _ _ digest \<Rightarrow> [digest] | _ \<Rightarrow> []) calls)"

definition post_inputs :: "vault_call list \<Rightarrow> string list" where
  "post_inputs calls = map (\<lambda>c. case c of Post _ input \<Rightarrow> input) calls"

section \<open>A reference crypto for secp256k1 keys, and test doubles\<close>

text \<open>
  What \<open>createPublicKey\<close> and the SPKI export do on a secp256k1 public key with
  an uncompressed point, to instantiate the parameter with: a key object is a point
  of the curve \<open>y\<^sup>2 = x\<^sup>3 + 7\<close> over the field of \<open>secp256k1_p\<close> elements, and
  its SPKI DER is a fixed prefix (the algorithm, the curve, the bit string header
  and the byte \<open>0x04\<close>) before the two coordinates, 32 bytes each. Other kinds of
  keys are rejected here.
\<close>

definition secp256k1_p :: nat where
  "secp256k1_p = 2 ^ 256 - 2 ^ 32 - 977"

definition on_secp256k1 :: "nat \<times> nat \<Rightarrow> bool" where
  "on_secp256k1 k =
     (case k of (px, py) \<Rightarrow>
        px < secp256k1_p \<and> py < secp256k1_p \<and>
        (py * py) mod secp256k1_p = (px * px * px + 7) mod secp256k1_p)"

definition spki_prefix :: "byte list" where
  "spki_prefix =
     [0x30, 0x56, 0x30, 0x10, 0x06, 0x07, 0x2a, 0x86, 0x48, 0xce, 0x3d, 0x02, 0x01,
      0x06, 0x05, 0x2b, 0x81, 0x04, 0x00, 0x0a, 0x03, 0x42, 0x00, 0x04]"

definition spki_der :: "nat \<times> nat \<Rightarrow> byte list" where
  "spki_der k = spki_prefix @ be_fixed 32 (fst k) @ be_fixed 32 (snd k)"

text \<open>
  The coordinates are read as numbers, whatever the number of their bytes; they
  have to be field elements and the point has to be on the curve.
\<close>

definition key_of_coordinates :: "byte list \<Rightarrow> byte list \<Rightarrow> error + nat \<times> nat" where
  "key_of_coordinates xs ys =
     (if on_secp256k1 (bn_of_bytes xs, bn_of_bytes ys)
      then Inr (bn_of_bytes xs, bn_of_bytes ys) else Inl CryptoError)"

definition key_of_jwk :: "string JsonWebKey \<Rightarrow> error + nat \<times> nat" where
  "key_of_jwk jwk =
     (if kty jwk = ''EC'' \<and> crv jwk = ''secp256k1''
      then key_of_coordinates (from_base64 (x_coord jwk)) (from_base64 (y_coord jwk))
      else Inl CryptoError)"

text \<open>
  A PEM text is read line by line, the lines ending with a line feed or with a
  carriage return and a line feed; white space at the end of a line is dropped, and
  the lines before the header are passed over.
\<close>

definition pem_line :: "string \<Rightarrow> string" where
  "pem_line line = rev (dropWhile (\<lambda>c. c \<in> set [CHR 0x0D, CHR 0x20, CHR 0x09]) (rev line))"

definition pem_body :: "string \<Rightarrow> string option" where
  "pem_body pem =
     (case dropWhile (\<lambda>line. line \<noteq> ''-----BEGIN PUBLIC KEY-----'')
             (map pem_line (String_split (CHR 0x0A) pem)) of
        [] \<Rightarrow> None
      | first # rest \<Rightarrow>
          if ''-----END PUBLIC KEY-----'' \<in> set rest
          then Some (concat (takeWhile (\<lambda>line. line \<noteq> ''-----END PUBLIC KEY-----'') rest))
          else None)"

definition key_of_pem :: "string \<Rightarrow> error + nat \<times> nat" where
  "key_of_pem pem =
     (case pem_body pem of
        None \<Rightarrow> Inl CryptoError
      | Some body \<Rightarrow>
          let der = from_base64 body
          in if length der = 88 \<and> take 24 der = spki_prefix
             then key_of_coordinates (take 32 (drop 24 der)) (drop 56 der)
             else Inl CryptoError)"

definition secp256k1_crypto :: "(nat \<times> nat) node_crypto" where
  "secp256k1_crypto =
     \<lparr>createPublicKey_jwk = key_of_jwk, createPublicKey_pem = key_of_pem, export_spki_der = spki_der\<rparr>"

text \<open>The generator of the curve as the key, in the form each backend gives it.\<close>

definition generator_x :: "byte list" where
  "generator_x =
     [0x79, 0xbe, 0x66, 0x7e, 0xf9, 0xdc, 0xbb, 0xac, 0x55, 0xa0, 0x62, 0x95, 0xce, 0x87, 0x0b, 0x07,
      0x02, 0x9b, 0xfc, 0xdb, 0x2d, 0xce, 0x28, 0xd9, 0x59, 0xf2, 0x81, 0x5b, 0x16, 0xf8, 0x17, 0x98]"

definition generator_y :: "byte list" where
  "generator_y =
     [0x48, 0x3a, 0xda, 0x77, 0x26, 0xa3, 0xc4, 0x65, 0x5d, 0xa4, 0xfb, 0xfc, 0x0e, 0x11, 0x08, 0xa8,
      0xfd, 0x17, 0xb4, 0x48, 0xa6, 0x85, 0x54, 0x19, 0x9c, 0x47, 0xd0, 0x8f, 0xfb, 0x10, 0xd4, 0xb8]"

definition generator_pem :: string where
  "generator_pem =
     ''-----BEGIN PUBLIC KEY-----'' @ [CHR 0x0A] @
     ''MFYwEAYHKoZIzj0CAQYFK4EEAAoDQgAEeb5mfvncu6xVoGKVzocLBwKb/NstzijZ'' @ [CHR 0x0A] @
     ''WfKBWxb4F5hIOtp3JqPEZV2k+/wOEQio/Re0SKaFVBmcR9CP+xDUuA=='' @ [CHR 0x0A] @
     ''-----END PUBLIC KEY-----'' @ [CHR 0x0A]"

definition generator_hex :: string where
  "generator_hex =
     ''3056301006072a8648ce3d020106052b8104000a03420004'' @
     ''79be667ef9dcbbac55a06295ce870b07029bfcdb2dce28d959f2815b16f81798'' @
     ''483ada7726a3c4655da4fbfc0e1108a8fd17b448a68554199c47d08ffb10d4b8''"

definition test_vault :: azure_vault where
  "test_vault =
     \<lparr>getKey = (\<lambda>key_name. Inr \<lparr>key_id = ''https://vault/keys/'' @ key_name,
                                    key_jwk = \<lparr>kty = ''EC-HSM'', crv = ''P-256K'',
                                               x_coord = generator_x, y_coord = generator_y\<rparr>\<rparr>),
      sign = (\<lambda>client algorithm digest. Inr [0x30, 0x06, 0x02, 0x01, 0x01, 0x02, 0x01, 0x02])\<rparr>"

definition test_kms :: kms_backend where
  "test_kms =
     \<lparr>getPublicKey = (\<lambda>version. Inr generator_pem),
      asymmetricSign = (\<lambda>request. Inr [0x30, 0x06, 0x02, 0x01, 0x01, 0x02, 0x01, 0x02])\<rparr>"

definition test_transit :: transit_backend where
  "test_transit = \<lparr>post = (\<lambda>path input. Inr ''vault:v1:QUJD'')\<rparr>"

section \<open>Properties\<close>

subsection \<open>Bytes and numbers\<close>

lemma byte_and_0x80: "(b :: byte) AND 0x80 = 0 \<longleftrightarrow> \<not> bit b 7"
proof -
  have e: "(0x80 :: byte) = 2 ^ 7" by simp
  show ?thesis
    by (simp only: e and_exp_eq_0_iff_not_bit)
qed

lemma bit7_unat: "bit (b :: byte) 7 \<longleftrightarrow> 128 \<le> unat b"
proof -
  have "unat b < 2 ^ LENGTH(8)" by (rule unsigned_less)
  then have lt: "unat b < 256" by simp
  have "odd (unat b div 2 ^ 7) \<longleftrightarrow> 128 \<le> unat b"
  proof (cases "unat b < 128")
    case True
    then show ?thesis by simp
  next
    case False
    with lt have "unat b div 128 = 1"
      by (intro div_nat_eqI) simp_all
    with False show ?thesis by simp
  qed
  moreover have "bit b 7 \<longleftrightarrow> bit (unat b) 7"
    by (simp add: bit_unsigned_iff)
  ultimately show ?thesis
    by (simp only: bit_iff_odd)
qed

lemma short_len_and: "n < 128 \<Longrightarrow> (of_nat n :: byte) AND 0x80 = 0"
  by (simp add: byte_and_0x80 bit7_unat unat_of_nat)

lemma short_len_ne: "n < 128 \<Longrightarrow> (of_nat n :: byte) \<noteq> 0x80"
  using short_len_and [of n] by auto

lemma short_len_uint: "n < 128 \<Longrightarrow> uint (of_nat n :: byte) = int n"
  by (simp add: uint_nat unat_of_nat)

lemma be_bytes_0 [simp]: "be_bytes 0 = []"
  by (simp add: be_bytes.simps)

lemma be_bytes_pos: "0 < n \<Longrightarrow> be_bytes n = be_bytes (n div 256) @ [of_nat (n mod 256)]"
  by (subst be_bytes.simps) simp

lemma bn_of_bytes_Nil [simp]: "bn_of_bytes [] = 0"
  by (simp add: bn_of_bytes_def)

lemma bn_of_bytes_snoc [simp]: "bn_of_bytes (bs @ [b]) = bn_of_bytes bs * 256 + unat b"
  by (simp add: bn_of_bytes_def)

lemma bn_of_bytes_zero_Cons [simp]: "bn_of_bytes (0 # bs) = bn_of_bytes bs"
  by (simp add: bn_of_bytes_def)

lemma bn_of_be_bytes [simp]: "bn_of_bytes (be_bytes n) = n"
proof (induction n rule: be_bytes.induct)
  case (1 n)
  show ?case
  proof (cases "n = 0")
    case True
    then show ?thesis by simp
  next
    case False
    with 1 show ?thesis
      by (simp add: be_bytes_pos unat_of_nat)
  qed
qed

lemma bn_of_bytes_less: "bn_of_bytes bs < 256 ^ length bs"
proof (induction bs rule: rev_induct)
  case Nil
  show ?case by simp
next
  case (snoc b bs)
  have "unat b < 2 ^ LENGTH(8)" by (rule unsigned_less)
  then have "unat b < 256" by simp
  with snoc show ?case by simp
qed

lemma length_be_bytes_le: "n < 256 ^ w \<Longrightarrow> length (be_bytes n) \<le> w"
proof (induction w arbitrary: n)
  case 0
  then show ?case by simp
next
  case (Suc w)
  show ?case
  proof (cases "n = 0")
    case True
    then show ?thesis by simp
  next
    case False
    from Suc.prems have "n div 256 < 256 ^ w"
      by (simp add: less_mult_imp_div_less mult.commute)
    from Suc.IH [OF this] False show ?thesis
      by (simp add: be_bytes_pos)
  qed
qed

lemma byteLength_le_iff: "byteLength n \<le> w \<longleftrightarrow> n < 256 ^ w"
proof
  assume "byteLength n \<le> w"
  then have "(256::nat) ^ length (be_bytes n) \<le> 256 ^ w"
    by (intro power_increasing) (simp_all add: byteLength_def)
  moreover have "n < 256 ^ length (be_bytes n)"
    using bn_of_bytes_less [of "be_bytes n"] by simp
  ultimately show "n < 256 ^ w"
    by (rule less_le_trans [rotated])
next
  assume "n < 256 ^ w"
  then show "byteLength n \<le> w"
    by (simp add: byteLength_def length_be_bytes_le)
qed

lemma length_be_fixed [simp]: "length (be_fixed w n) = w"
  by (induction w arbitrary: n) simp_all

lemma be_fixed_zero: "be_fixed w 0 = replicate w 0"
  by (induction w) (simp_all add: replicate_append_same)

lemma pad_be_bytes: "n < 256 ^ w \<Longrightarrow> replicate (w - length (be_bytes n)) 0 @ be_bytes n = be_fixed w n"
proof (induction w arbitrary: n)
  case 0
  then show ?case by simp
next
  case (Suc w)
  show ?case
  proof (cases "n = 0")
    case True
    then show ?thesis
      using be_fixed_zero [of "Suc w"] by simp
  next
    case False
    from Suc.prems have "n div 256 < 256 ^ w"
      by (simp add: less_mult_imp_div_less mult.commute)
    from Suc.IH [OF this] False show ?thesis
      by (simp add: be_bytes_pos)
  qed
qed

lemma bn_of_be_fixed: "n < 256 ^ w \<Longrightarrow> bn_of_bytes (be_fixed w n) = n"
proof (induction w arbitrary: n)
  case 0
  then show ?case by simp
next
  case (Suc w)
  from Suc.prems have "n div 256 < 256 ^ w"
    by (simp add: less_mult_imp_div_less mult.commute)
  from Suc.IH [OF this] show ?case
    by (simp add: unat_of_nat)
qed

lemma toArray_32: "toArray n 32 = (if n < 256 ^ 32 then Inr (be_fixed 32 n) else Inl AssertionError)"
  using byteLength_le_iff [of n 32] pad_be_bytes [of n 32]
  by (simp add: toArray_def byteLength_def)

subsection \<open>The digest has 32 bytes\<close>

lemma length_rho_pi: "length (rho_pi a) = 25"
  by (simp add: rho_pi_def rho_pi_table_def)

lemma length_chi_rho_pi: "length (chi (rho_pi a)) = 25"
  by (simp add: chi_def rho_pi_def rho_pi_table_def)

lemma length_iota: "length (iota rc a) = length a"
  by (simp add: iota_def split: list.split)

lemma length_keccak_round: "length (keccak_round a rc) = 25"
  by (simp add: keccak_round_def length_iota length_chi_rho_pi)

lemma length_foldl_keccak_round:
  "rcs \<noteq> [] \<Longrightarrow> length (foldl keccak_round a rcs) = 25"
  by (induction rcs rule: rev_induct) (simp_all add: length_keccak_round)

lemma length_keccak_f: "length (keccak_f a) = 25"
  by (simp add: keccak_f_def round_constants_def length_keccak_round)

lemma length_absorbed: "length (foldl absorb (replicate 25 0) blocks) = 25"
  by (induction blocks rule: rev_induct) (simp_all add: absorb_def length_keccak_f)

lemma length_bytes_of_lane: "length (bytes_of_lane k l) = k"
  by (induction k arbitrary: l) simp_all

lemma length_concat_lanes: "length (concat (map (bytes_of_lane 8) st)) = 8 * length st"
  by (induction st) (simp_all add: length_bytes_of_lane)

lemma length_keccak256: "length (keccak256 m) = 32"
  by (simp add: keccak256_def length_concat_lanes length_absorbed)

subsection \<open>Base64 text decodes to the bytes it was made from\<close>

lemma unbase64_base64_char: "n < 64 \<Longrightarrow> unbase64 (base64_char n) = Some n"
  by (auto simp add: unbase64_def base64_char_def Let_def)

lemma unbase64_base64url_char: "n < 64 \<Longrightarrow> unbase64 (base64url_char n) = Some n"
  by (auto simp add: unbase64_def base64url_char_def Let_def)

lemma unbase64_equals: "unbase64 CHR ''='' = None"
  by (simp add: unbase64_def)

lemma sextets_Nil: "sextets [] = []"
  by (simp add: sextets_def map_filter_simps)

lemma sextets_padding: "sextets (CHR ''='' # text) = []"
  by (simp add: sextets_def map_filter_simps)

lemma sextets_Cons:
  "unbase64 c = Some n \<Longrightarrow> sextets (c # text) = n # sextets text"
  using unbase64_equals by (auto simp add: sextets_def map_filter_simps)

lemma unat_byte_less: "unat (b :: byte) < 256"
  using unsigned_less [of b, where 'a = nat] by simp

lemma byte_of_sextets_1:
  "of_nat (unat (a :: byte) div 4 * 4 + (unat a mod 4 * 16 + unat (b :: byte) div 16) div 16) = a"
proof -
  have "unat b div 16 < 16" using unat_byte_less [of b] by simp
  then have "(unat a mod 4 * 16 + unat b div 16) div 16 = unat a mod 4" by simp
  then have "unat a div 4 * 4 + (unat a mod 4 * 16 + unat b div 16) div 16 = unat a" by simp
  then show ?thesis by (metis of_nat_unat ucast_id)
qed

lemma byte_of_sextets_1': "of_nat (unat (a :: byte) div 4 * 4 + unat a mod 4 * 16 div 16) = a"
proof -
  have "unat a div 4 * 4 + unat a mod 4 * 16 div 16 = unat a" by simp
  then show ?thesis by (metis of_nat_unat ucast_id)
qed

lemma byte_of_sextets_2:
  "of_nat ((unat (a :: byte) mod 4 * 16 + unat (b :: byte) div 16) mod 16 * 16
           + (unat b mod 16 * 4 + unat (c :: byte) div 64) div 4) = b"
proof -
  have "unat c div 64 < 4" using unat_byte_less [of c] by simp
  then have 1: "(unat b mod 16 * 4 + unat c div 64) div 4 = unat b mod 16" by simp
  have "unat b div 16 < 16" using unat_byte_less [of b] by simp
  then have 2: "(unat a mod 4 * 16 + unat b div 16) mod 16 = unat b div 16" by simp
  have 3: "unat b div 16 * 16 + unat b mod 16 = unat b" by simp
  have "(unat a mod 4 * 16 + unat b div 16) mod 16 * 16
        + (unat b mod 16 * 4 + unat c div 64) div 4 = unat b"
    by (simp only: 1 2 3)
  then show ?thesis by (metis of_nat_unat ucast_id)
qed

lemma byte_of_sextets_2':
  "of_nat ((unat (a :: byte) mod 4 * 16 + unat (b :: byte) div 16) mod 16 * 16
           + unat b mod 16 * 4 div 4) = b"
proof -
  have "unat b div 16 < 16" using unat_byte_less [of b] by simp
  then have 2: "(unat a mod 4 * 16 + unat b div 16) mod 16 = unat b div 16" by simp
  have 1: "unat b mod 16 * 4 div 4 = unat b mod 16" by simp
  have 3: "unat b div 16 * 16 + unat b mod 16 = unat b" by simp
  have "(unat a mod 4 * 16 + unat b div 16) mod 16 * 16 + unat b mod 16 * 4 div 4 = unat b"
    by (simp only: 1 2 3)
  then show ?thesis by (metis of_nat_unat ucast_id)
qed

lemma byte_of_sextets_3:
  "of_nat ((unat (b :: byte) mod 16 * 4 + unat (c :: byte) div 64) mod 4 * 64 + unat c mod 64) = c"
proof -
  have "unat c div 64 < 4" using unat_byte_less [of c] by simp
  then have "(unat b mod 16 * 4 + unat c div 64) mod 4 = unat c div 64" by simp
  then have "(unat b mod 16 * 4 + unat c div 64) mod 4 * 64 + unat c mod 64 = unat c" by simp
  then show ?thesis by (metis of_nat_unat ucast_id)
qed

lemma sextet_bounds:
  "unat (a :: byte) div 4 < 64"
  "unat (a :: byte) mod 4 * 16 + unat (b :: byte) div 16 < 64"
  "unat (a :: byte) mod 4 * 16 < 64"
  "unat (b :: byte) mod 16 * 4 + unat (c :: byte) div 64 < 64"
  "unat (b :: byte) mod 16 * 4 < 64"
  "unat (c :: byte) mod 64 < 64"
proof -
  show "unat a div 4 < 64" using unat_byte_less [of a] by simp
  have "unat a mod 4 < 4" by simp
  moreover have "unat b div 16 < 16" using unat_byte_less [of b] by simp
  ultimately show "unat a mod 4 * 16 + unat b div 16 < 64" by linarith
  show "unat a mod 4 * 16 < 64" using \<open>unat a mod 4 < 4\<close> by linarith
  have "unat b mod 16 < 16" by simp
  moreover have "unat c div 64 < 4" using unat_byte_less [of c] by simp
  ultimately show "unat b mod 16 * 4 + unat c div 64 < 64" by linarith
  show "unat b mod 16 * 4 < 64" using \<open>unat b mod 16 < 16\<close> by linarith
  show "unat c mod 64 < 64" by simp
qed

lemma decode_encode_groups:
  "\<forall>n<64. unbase64 (ch n) = Some n \<Longrightarrow>
   decode_groups (sextets (encode_groups ch pad bs)) = bs"
proof (induction ch pad bs rule: encode_groups.induct)
  case (1 ch pad)
  show ?case by (simp add: sextets_Nil)
next
  case (2 ch pad a)
  then have ch: "\<And>n text. n < 64 \<Longrightarrow> sextets (ch n # text) = n # sextets text"
    by (simp add: sextets_Cons)
  have "sextets (encode_groups ch pad [a]) = [unat a div 4, unat a mod 4 * 16]"
    by (cases pad) (simp_all add: ch sextet_bounds sextets_Nil sextets_padding)
  then show ?case
    by (simp only: decode_groups.simps byte_of_sextets_1')
next
  case (3 ch pad a b)
  then have ch: "\<And>n text. n < 64 \<Longrightarrow> sextets (ch n # text) = n # sextets text"
    by (simp add: sextets_Cons)
  have "sextets (encode_groups ch pad [a, b])
        = [unat a div 4, unat a mod 4 * 16 + unat b div 16, unat b mod 16 * 4]"
    by (cases pad) (simp_all add: ch sextet_bounds sextets_Nil sextets_padding)
  then show ?case
    by (simp only: decode_groups.simps byte_of_sextets_1 byte_of_sextets_2')
next
  case (4 ch pad a b c rest)
  then have ch: "\<And>n text. n < 64 \<Longrightarrow> sextets (ch n # text) = n # sextets text"
    by (simp add: sextets_Cons)
  have "sextets (encode_groups ch pad (a # b # c # rest))
        = unat a div 4 # (unat a mod 4 * 16 + unat b div 16) # (unat b mod 16 * 4 + unat c div 64)
          # unat c mod 64 # sextets (encode_groups ch pad rest)"
    by (simp add: ch sextet_bounds)
  with 4 show ?case
    by (simp only: decode_groups.simps byte_of_sextets_1 byte_of_sextets_2 byte_of_sextets_3
        append_Cons append_Nil)
qed

lemma from_base64_toString_base64: "from_base64 (toString_base64 bs) = bs"
  using decode_encode_groups [of base64_char True bs]
  by (simp add: from_base64_def toString_base64_def unbase64_base64_char)

lemma from_base64_toString_base64url: "from_base64 (toString_base64url bs) = bs"
  using decode_encode_groups [of base64url_char False bs]
  by (simp add: from_base64_def toString_base64url_def unbase64_base64url_char)

lemma base64url_char_not_padding: "base64url_char n \<noteq> CHR ''=''"
proof (cases "n < 64")
  case True
  then show ?thesis
    using unbase64_base64url_char [of n] unbase64_equals by auto
next
  case False
  then show ?thesis by (simp add: base64url_char_def)
qed

lemma toString_base64url_unpadded: "CHR ''='' \<notin> set (toString_base64url bs)"
proof -
  have "CHR ''='' \<notin> set (encode_groups base64url_char False bs)"
    by (induction base64url_char False bs rule: encode_groups.induct)
      (simp_all add: base64url_char_not_padding [symmetric])
  then show ?thesis by (simp add: toString_base64url_def)
qed

subsection \<open>Decoding what the reference encoder writes\<close>

lemma and_then_Some_Inr [simp]: "and_then (Some (Inr v)) f = f v"
  by (simp add: and_then_def)

lemma and_then_Some_Inl [simp]: "and_then (Some (Inl e)) f = Some (Inl e)"
  by (simp add: and_then_def)

lemma and_then_None [simp]: "and_then None f = None"
  by (simp add: and_then_def)

lemma new_DecoderBuffer_window: "new_DecoderBuffer data = window [] data []"
  by (simp add: new_DecoderBuffer_def window_def)

lemma readUInt8_window:
  "readUInt8 (window consumed (b # unread) beyond) = Inr (b, window (consumed @ [b]) unread beyond)"
  by (simp add: readUInt8_def window_def nth_append)

lemma skip_window:
  "skip (window consumed (content @ unread) beyond) (int (length content))
   = Inr (window consumed content (unread @ beyond), window (consumed @ content) unread beyond)"
  by (simp add: skip_def window_def)

lemma raw_window [simp]: "raw (window consumed unread beyond) = unread"
  by (simp add: raw_def window_def Buffer_slice_def adjustOffset_def)

lemma derDecodeTag_seq:
  "derDecodeTag (window consumed (0x30 # unread) beyond)
   = Inr (False, seq_tag, window (consumed @ [0x30]) unread beyond)"
  by (simp add: derDecodeTag_def readUInt8_window seq_tag_def)

lemma derDecodeTag_int:
  "derDecodeTag (window consumed (0x02 # unread) beyond)
   = Inr (True, int_tag, window (consumed @ [0x02]) unread beyond)"
  by (simp add: derDecodeTag_def readUInt8_window int_tag_def)

lemma derDecodeLen_short:
  "n < 128 \<Longrightarrow>
   derDecodeLen (window consumed (of_nat n # unread) beyond) primitive
   = Inr (Some (int n), window (consumed @ [of_nat n]) unread beyond)"
  by (simp add: derDecodeLen_def readUInt8_window short_len_and short_len_ne short_len_uint)

lemma decodeTag_seq_short:
  "length content < 128 \<Longrightarrow>
   decodeTag (window consumed (der_value 0x30 content @ unread) beyond) seq_tag
   = Some (Inr (window (consumed @ [0x30, of_nat (length content)]) content (unread @ beyond),
                window (consumed @ der_value 0x30 content) unread beyond))"
  using skip_window [of "consumed @ [0x30, of_nat (length content)]" content unread beyond]
  by (simp add: decodeTag_def der_value_def der_length_def derDecodeTag_seq derDecodeLen_short)

lemma decodeTag_int_short:
  "length content < 128 \<Longrightarrow>
   decodeTag (window consumed (der_value 0x02 content @ unread) beyond) int_tag
   = Some (Inr (window (consumed @ [0x02, of_nat (length content)]) content (unread @ beyond),
                window (consumed @ der_value 0x02 content) unread beyond))"
  using skip_window [of "consumed @ [0x02, of_nat (length content)]" content unread beyond]
  by (simp add: decodeTag_def der_value_def der_length_def derDecodeTag_int derDecodeLen_short)

lemma length_der_value_short:
  "length content < 128 \<Longrightarrow> length (der_value tag content) = 2 + length content"
  by (simp add: der_value_def der_length_def)

lemma EcdsaSig_decode_der:
  assumes "length cr + length cs < 124"
  shows "EcdsaSig_decode (der_value 0x30 (der_value 0x02 cr @ der_value 0x02 cs) @ trailing)
         = Some (Inr (bn_of_bytes cr, bn_of_bytes cs))"
proof -
  from assms have r: "length cr < 128" and s: "length cs < 128" by simp_all
  from assms r s have b: "length (der_value 0x02 cr @ der_value 0x02 cs) < 128"
    by (simp add: length_der_value_short)
  show ?thesis
    using decodeTag_int_short [OF s, of _ "[]"]
    by (simp add: EcdsaSig_decode_def new_DecoderBuffer_window decodeTag_seq_short [OF b]
        decodeTag_int_short [OF r])
qed

lemma kmsSigner_signature_eq:
  "kmsSigner_signature data =
     and_then (EcdsaSig_decode data) (\<lambda>(r, s).
       Some (if r < 256 ^ 32 \<and> s < 256 ^ 32 then Inr (be_fixed 32 r @ be_fixed 32 s)
             else Inl AssertionError))"
  by (simp add: kmsSigner_signature_def toArray_32 Uint8Array_set_def and_then_def
      split: option.split sum.split prod.split)

lemma bn_of_integer_content [simp]: "bn_of_bytes (integer_content pad n) = n"
  by (simp add: integer_content_def)

lemma length_integer_content:
  "n < 256 ^ 32 \<Longrightarrow> length (integer_content pad n) \<le> 33"
  using length_be_bytes_le [of n 32] by (simp add: integer_content_def)

lemma kmsSigner_signature_padded:
  assumes "r < 2 ^ 256" and "s < 2 ^ 256"
  shows "kmsSigner_signature (der_signature_padded pad_r pad_s r s)
         = Some (Inr (be_fixed 32 r @ be_fixed 32 s))"
proof -
  have p: "(2::nat) ^ 256 = 256 ^ 32" by simp
  from assms have r: "r < 256 ^ 32" and s: "s < 256 ^ 32" by (simp_all only: p)
  have "length (integer_content pad_r r) + length (integer_content pad_s s) < 124"
    using length_integer_content [OF r, of pad_r] length_integer_content [OF s, of pad_s] by simp
  from EcdsaSig_decode_der [OF this, of "[]"] r s show ?thesis
    by (simp add: kmsSigner_signature_eq der_signature_padded_def)
qed

lemma bn_of_bytes_zeros [simp]: "bn_of_bytes (replicate k 0 @ bs) = bn_of_bytes bs"
  by (induction k) simp_all

lemma be_fixed_bn_of_bytes: "length bs = w \<Longrightarrow> be_fixed w (bn_of_bytes bs) = bs"
proof (induction bs arbitrary: w rule: rev_induct)
  case Nil
  then show ?case by simp
next
  case (snoc b bs)
  have "unat b < 2 ^ LENGTH(8)" by (rule unsigned_less)
  then have lt: "unat b < 256" by simp
  from snoc.prems obtain v where w: "w = Suc v" and v: "length bs = v" by (cases w) auto
  from lt have "(bn_of_bytes bs * 256 + unat b) div 256 = bn_of_bytes bs"
    and "(bn_of_bytes bs * 256 + unat b) mod 256 = unat b" by simp_all
  with snoc.IH [OF v] show ?case
    by (simp add: w)
qed

lemma be_fixed_bn_of_bytes_pad:
  assumes "length bs \<le> w"
  shows "be_fixed w (bn_of_bytes bs) = replicate (w - length bs) 0 @ bs"
proof -
  have "be_fixed w (bn_of_bytes (replicate (w - length bs) 0 @ bs)) = replicate (w - length bs) 0 @ bs"
    using assms by (intro be_fixed_bn_of_bytes) simp
  then show ?thesis by simp
qed

lemma kmsSigner_signature_scenario:
  assumes "length r_bytes = 31" and "length s_bytes = 32"
  shows "kmsSigner_signature (der_value 0x30 (der_value 0x02 r_bytes @ der_value 0x02 (0 # s_bytes)))
         = Some (Inr ((0 # r_bytes) @ s_bytes))"
proof -
  have "bn_of_bytes r_bytes < 256 ^ 31"
    using bn_of_bytes_less [of r_bytes] assms by simp
  then have r: "bn_of_bytes r_bytes < 256 ^ 32" by simp
  have s: "bn_of_bytes s_bytes < 256 ^ 32"
    using bn_of_bytes_less [of s_bytes] assms by simp
  have "length r_bytes + length (0 # s_bytes) < 124" using assms by simp
  from EcdsaSig_decode_der [OF this, of "[]"] r s
  have "kmsSigner_signature (der_value 0x30 (der_value 0x02 r_bytes @ der_value 0x02 (0 # s_bytes)))
        = Some (Inr (be_fixed 32 (bn_of_bytes r_bytes) @ be_fixed 32 (bn_of_bytes s_bytes)))"
    by (simp add: kmsSigner_signature_eq)
  moreover have "be_fixed 32 (bn_of_bytes r_bytes) = 0 # r_bytes"
    using be_fixed_bn_of_bytes_pad [of r_bytes 32] assms by simp
  moreover have "be_fixed 32 (bn_of_bytes s_bytes) = s_bytes"
    using be_fixed_bn_of_bytes [of s_bytes 32] assms by simp
  ultimately show ?thesis by simp
qed

subsection \<open>What the decoder rejects, and what it lets through\<close>

lemma readUInt8_exhausted:
  "buf_length buffer \<le> buf_offset buffer \<Longrightarrow> readUInt8 buffer = Inl ReporterError"
  by (simp add: readUInt8_def)

lemma decodeTag_exhausted:
  "buf_length buffer \<le> buf_offset buffer \<Longrightarrow> decodeTag buffer tag = Some (Inl ReporterError)"
  by (simp add: decodeTag_def derDecodeTag_def readUInt8_exhausted)

lemma within_base_window: "within_base (window consumed unread beyond)"
  by (simp add: within_base_def window_def)

lemma readUInt8_within_base:
  assumes "within_base buffer"
  shows "readUInt8 buffer = Inl ReporterError
       \<or> (\<exists>b buffer'. readUInt8 buffer = Inr (b, buffer') \<and> within_base buffer')"
  using assms by (auto simp add: readUInt8_def within_base_def)

lemma longFormLen_error:
  "within_base buffer \<Longrightarrow> longFormLen n l buffer = Inl e \<Longrightarrow> e = ReporterError"
proof (induction n arbitrary: l buffer)
  case 0
  then show ?case by simp
next
  case (Suc n)
  from readUInt8_within_base [OF Suc.prems(1)] Suc.prems(2) Suc.IH show ?case
    by auto
qed

lemma derDecodeLen_error:
  assumes "within_base buffer" and "derDecodeLen buffer primitive = Inl e"
  shows "e = ReporterError"
proof -
  from readUInt8_within_base [OF assms(1)] show ?thesis
  proof
    assume "readUInt8 buffer = Inl ReporterError"
    with assms(2) show ?thesis by (simp add: derDecodeLen_def)
  next
    assume "\<exists>b buffer'. readUInt8 buffer = Inr (b, buffer') \<and> within_base buffer'"
    then obtain b buffer' where "readUInt8 buffer = Inr (b, buffer')" and "within_base buffer'"
      by blast
    with assms(2) show ?thesis
      by (auto simp add: derDecodeLen_def Let_def split: if_splits sum.splits
          dest: longFormLen_error)
  qed
qed

lemma decodeTag_zero_byte:
  "decodeTag (window [] (0 # unread) []) seq_tag = Some (Inl ReporterError)"
proof -
  have "derDecodeTag (window [] (0 # unread) []) = Inr (True, 0, window [0] unread [])"
    by (simp add: derDecodeTag_def readUInt8_window)
  then show ?thesis
    using derDecodeLen_error [OF within_base_window, of "[0]" unread "[]" True]
    by (auto simp add: decodeTag_def seq_tag_def split: sum.split prod.split)
qed

lemma kmsSigner_signature_zero_byte:
  "kmsSigner_signature (0 # unread) = Some (Inl ReporterError)"
  by (simp add: kmsSigner_signature_eq EcdsaSig_decode_def new_DecoderBuffer_window
      decodeTag_zero_byte)

lemma be_fixed_Suc_small:
  assumes "n < 256 ^ w"
  shows "be_fixed (Suc w) n = 0 # be_fixed w n"
proof -
  from assms have l: "length (be_bytes n) \<le> w" by (rule length_be_bytes_le)
  from assms have "n < 256 ^ Suc w" by simp
  then have "be_fixed (Suc w) n = replicate (Suc w - length (be_bytes n)) 0 @ be_bytes n"
    by (rule pad_be_bytes [symmetric])
  also from l have "\<dots> = 0 # (replicate (w - length (be_bytes n)) 0 @ be_bytes n)"
    by (simp add: Suc_diff_le)
  also from assms have "\<dots> = 0 # be_fixed w n"
    by (simp add: pad_be_bytes)
  finally show ?thesis .
qed

lemma kmsSigner_signature_raw:
  assumes "r < 2 ^ 248"
  shows "kmsSigner_signature (be_fixed 32 r @ be_fixed 32 s) = Some (Inl ReporterError)"
proof -
  have p: "(2::nat) ^ 248 = 256 ^ 31" by simp
  from assms have "r < 256 ^ 31" by (simp only: p)
  then have "be_fixed (Suc 31) r = 0 # be_fixed 31 r" by (rule be_fixed_Suc_small)
  then have "be_fixed 32 r = 0 # be_fixed 31 r" by simp
  then show ?thesis
    by (simp add: kmsSigner_signature_zero_byte)
qed

lemma kmsSigner_signature_first_integer_only:
  assumes "decodeTag (new_DecoderBuffer data) seq_tag = Some (Inr (body, rest))"
    and "decodeTag body int_tag = Some (Inr (r_buffer, body1))"
    and "buf_length body1 \<le> buf_offset body1"
  shows "kmsSigner_signature data = Some (Inl ReporterError)"
  using assms by (simp add: kmsSigner_signature_eq EcdsaSig_decode_def decodeTag_exhausted)

lemma kmsSigner_signature_one_integer:
  assumes "length c < 126"
  shows "kmsSigner_signature (der_value 0x30 (der_value 0x02 c)) = Some (Inl ReporterError)"
proof -
  from assms have c: "length c < 128" by simp
  from assms have b: "length (der_value 0x02 c) < 128"
    by (simp add: length_der_value_short)
  have 1: "decodeTag (new_DecoderBuffer (der_value 0x30 (der_value 0x02 c))) seq_tag
           = Some (Inr (window [0x30, of_nat (length (der_value 0x02 c))] (der_value 0x02 c) [],
                        window (der_value 0x30 (der_value 0x02 c)) [] []))"
    using decodeTag_seq_short [OF b, of "[]" "[]" "[]"] by (simp add: new_DecoderBuffer_window)
  have 2: "decodeTag (window [0x30, of_nat (length (der_value 0x02 c))] (der_value 0x02 c) []) int_tag
           = Some (Inr (window ([0x30, of_nat (length (der_value 0x02 c))] @ [0x02, of_nat (length c)]) c [],
                        window ([0x30, of_nat (length (der_value 0x02 c))] @ der_value 0x02 c) [] []))"
    using decodeTag_int_short [OF c, of "[0x30, of_nat (length (der_value 0x02 c))]" "[]" "[]"]
    by simp
  have 3: "buf_length (window ([0x30, of_nat (length (der_value 0x02 c))] @ der_value 0x02 c) [] [])
           \<le> buf_offset (window ([0x30, of_nat (length (der_value 0x02 c))] @ der_value 0x02 c) [] [])"
    by (simp add: window_def)
  from 1 2 3 show ?thesis
    by (rule kmsSigner_signature_first_integer_only)
qed

lemma kmsSigner_signature_too_wide:
  assumes "EcdsaSig_decode data = Some (Inr (r, s))" and "2 ^ 256 \<le> r \<or> 2 ^ 256 \<le> s"
  shows "kmsSigner_signature data = Some (Inl AssertionError)"
proof -
  have p: "(2::nat) ^ 256 = 256 ^ 32" by simp
  from assms(2) have "\<not> (r < 256 ^ 32 \<and> s < 256 ^ 32)"
    unfolding p by auto
  with assms(1) show ?thesis
    by (simp add: kmsSigner_signature_eq)
qed

lemma kmsSigner_signature_length:
  assumes "kmsSigner_signature data = Some (Inr out)"
  shows "length out = 64"
  using assms
  by (auto simp add: kmsSigner_signature_eq and_then_def
      split: option.splits sum.splits prod.splits if_splits)

subsection \<open>The signature of the cloud-KMS signer\<close>

text \<open>
  C1. For every valid DER signature \<open>SEQUENCE { INTEGER r, INTEGER s }\<close> with
  \<open>r\<close> and \<open>s\<close> below \<open>2 ^ 256\<close>, the r/s reconstruction of \<open>kmsSigner\<close>
  returns exactly 64 bytes: the 32-byte big-endian form of \<open>r\<close>, left-padded with
  zero bytes, then that of \<open>s\<close>, the sign padding of the INTEGERs gone. In
  particular, when the DER holds 31 bytes for \<open>r\<close> (INTEGER length 31) and a zero
  byte of sign padding before 32 bytes for \<open>s\<close> (INTEGER length 33), the result is
  a zero byte, the 31 bytes of \<open>r\<close>, then the 32 bytes of \<open>s\<close>.
\<close>

theorem kmsSigner_der_to_raw:
  assumes "r < 2 ^ 256" and "s < 2 ^ 256"
  shows "kmsSigner_signature (der_signature r s) = Some (Inr (be_fixed 32 r @ be_fixed 32 s))
       \<and> length (be_fixed 32 r @ be_fixed 32 s) = 64
       \<and> bn_of_bytes (be_fixed 32 r) = r \<and> bn_of_bytes (be_fixed 32 s) = s
       \<and> (length r_bytes = 31 \<and> length s_bytes = 32 \<longrightarrow>
            kmsSigner_signature
              (der_value 0x30 (der_value 0x02 r_bytes @ der_value 0x02 (0 # s_bytes)))
            = Some (Inr ((0 # r_bytes) @ s_bytes)))"
proof -
  have p: "(2::nat) ^ 256 = 256 ^ 32" by simp
  from assms have r: "r < 256 ^ 32" and s: "s < 256 ^ 32" by (simp_all only: p)
  have "kmsSigner_signature (der_signature r s) = Some (Inr (be_fixed 32 r @ be_fixed 32 s))"
    unfolding der_signature_def using assms by (rule kmsSigner_signature_padded)
  moreover have "length (be_fixed 32 r @ be_fixed 32 s) = 64" by simp
  moreover have "bn_of_bytes (be_fixed 32 r) = r" using r by (rule bn_of_be_fixed)
  moreover have "bn_of_bytes (be_fixed 32 s) = s" using s by (rule bn_of_be_fixed)
  ultimately show ?thesis
    using kmsSigner_signature_scenario [of r_bytes s_bytes] by blast
qed

theorem kmsSigner_der_to_raw_witness:
  "(5::nat) < 2 ^ 256 \<and> (7::nat) < 2 ^ 256 \<and> length r31 = 31 \<and> length (0x80 # r31) = 32
   \<and> kmsSigner_signature [0x30, 0x06, 0x02, 0x01, 0x05, 0x02, 0x01, 0x07]
       = Some (Inr (replicate 31 0 @ [0x05] @ replicate 31 0 @ [0x07]))
   \<and> kmsSigner_signature (0x30 # 0x44 # 0x02 # 0x1f # r31 @ 0x02 # 0x21 # 0x00 # 0x80 # r31)
       = Some (Inr ((0x00 # r31) @ (0x80 # r31)))"
proof -
  have a: "der_signature 5 7 = [0x30, 0x06, 0x02, 0x01, 0x05, 0x02, 0x01, 0x07]"
    by code_simp
  have b: "be_fixed 32 5 @ be_fixed 32 7 = replicate 31 0 @ [0x05] @ replicate 31 0 @ [0x07]"
    by code_simp
  have c: "der_value 0x30 (der_value 0x02 r31 @ der_value 0x02 (0x00 # 0x80 # r31))
           = 0x30 # 0x44 # 0x02 # 0x1f # r31 @ 0x02 # 0x21 # 0x00 # 0x80 # r31"
    by (simp add: der_value_def der_length_def r31_def)
  have d: "length r31 = 31"
    by (simp add: r31_def)
  from kmsSigner_der_to_raw [of 5 7 r31 "0x80 # r31"] show ?thesis
    by (simp add: a b c d)
qed

subsection \<open>Malformed input, and raw input, at the cloud-KMS signer\<close>

lemma bn_of_bytes_shift: "bn_of_bytes (bs @ replicate k 0) = bn_of_bytes bs * 256 ^ k"
proof (induction k)
  case 0
  show ?case by simp
next
  case (Suc k)
  have "bs @ replicate (Suc k) 0 = (bs @ replicate k 0) @ [0]"
    by (simp add: replicate_append_same)
  with Suc show ?case
    by (simp only: bn_of_bytes_snoc) simp
qed

lemma decode_eval:
  "EcdsaSig_decode (0x30 # 0x26 # 0x02 # 0x21 # 0x01 # replicate 32 0 @ [0x02, 0x01, 0x01])
   = Some (Inr (2 ^ 256, 1))"
proof -
  have "0x30 # 0x26 # 0x02 # 0x21 # 0x01 # replicate 32 0 @ [0x02, 0x01, 0x01]
        = der_value 0x30 (der_value 0x02 (0x01 # replicate 32 0) @ der_value 0x02 [0x01]) @ []"
    by (simp add: der_value_def der_length_def)
  moreover have "bn_of_bytes (0x01 # replicate 32 0) = 2 ^ 256"
    using bn_of_bytes_shift [of "[0x01]" 32] by (simp add: bn_of_bytes_def)
  moreover have "bn_of_bytes [0x01] = 1"
    by (simp add: bn_of_bytes_def)
  ultimately show ?thesis
    using EcdsaSig_decode_der [of "0x01 # replicate 32 0" "[0x01]" "[]"] by simp
qed

lemma one_integer_eval:
  "decodeTag (new_DecoderBuffer (0x30 # 0x81 # 0xcb # 0x02 # 0x81 # 0xc8 # replicate 200 0x55)) seq_tag
   = Some (Inr (\<lparr>buf_base = 0x30 # 0x81 # 0xcb # 0x02 # 0x81 # 0xc8 # replicate 200 0x55,
                  buf_offset = 3, buf_length = 206\<rparr>,
                \<lparr>buf_base = 0x30 # 0x81 # 0xcb # 0x02 # 0x81 # 0xc8 # replicate 200 0x55,
                  buf_offset = 206, buf_length = 206\<rparr>))
   \<and> decodeTag \<lparr>buf_base = 0x30 # 0x81 # 0xcb # 0x02 # 0x81 # 0xc8 # replicate 200 0x55,
                 buf_offset = 3, buf_length = 206\<rparr> int_tag
     = Some (Inr (\<lparr>buf_base = 0x30 # 0x81 # 0xcb # 0x02 # 0x81 # 0xc8 # replicate 200 0x55,
                    buf_offset = 6, buf_length = 206\<rparr>,
                  \<lparr>buf_base = 0x30 # 0x81 # 0xcb # 0x02 # 0x81 # 0xc8 # replicate 200 0x55,
                    buf_offset = 206, buf_length = 206\<rparr>))"
  by code_simp




text \<open>
  C7, as the code has it. For \<open>r\<close> and \<open>s\<close> below \<open>2 ^ 256\<close>, the DER encoding
  of \<open>(r, s)\<close>, with or without the sign padding of either INTEGER, goes through
  the r/s reconstruction of \<open>kmsSigner\<close> to the 64 bytes whose halves are \<open>r\<close>
  and \<open>s\<close> again. A signature that is already raw is returned unchanged by the
  HSM-vault signer, which returns whatever it receives; \<open>kmsSigner\<close> decodes
  every input as DER, and a raw signature starting with a zero byte (\<open>r\<close> below
  \<open>2 ^ 248\<close>) makes it throw.
\<close>

theorem kmsSigner_roundtrip:
  assumes "r < 2 ^ 256" and "s < 2 ^ 256"
  shows "kmsSigner_signature (der_signature_padded pad_r pad_s r s)
         = Some (Inr (be_fixed 32 r @ be_fixed 32 s))
       \<and> bn_of_bytes (take 32 (be_fixed 32 r @ be_fixed 32 s)) = r
       \<and> bn_of_bytes (drop 32 (be_fixed 32 r @ be_fixed 32 s)) = s
       \<and> azureSigner_signature (be_fixed 32 r @ be_fixed 32 s) = be_fixed 32 r @ be_fixed 32 s
       \<and> (r < 2 ^ 248 \<longrightarrow>
            kmsSigner_signature (be_fixed 32 r @ be_fixed 32 s) = Some (Inl ReporterError))"
proof -
  have p: "(2::nat) ^ 256 = 256 ^ 32" by simp
  from assms have r: "r < 256 ^ 32" and s: "s < 256 ^ 32" by (simp_all only: p)
  have "kmsSigner_signature (der_signature_padded pad_r pad_s r s)
        = Some (Inr (be_fixed 32 r @ be_fixed 32 s))"
    using assms by (rule kmsSigner_signature_padded)
  moreover have "bn_of_bytes (take 32 (be_fixed 32 r @ be_fixed 32 s)) = r"
    using r by (simp add: bn_of_be_fixed)
  moreover have "bn_of_bytes (drop 32 (be_fixed 32 r @ be_fixed 32 s)) = s"
    using s by (simp add: bn_of_be_fixed)
  moreover have "azureSigner_signature (be_fixed 32 r @ be_fixed 32 s) = be_fixed 32 r @ be_fixed 32 s"
    by (simp add: azureSigner_signature_def)
  ultimately show ?thesis
    using kmsSigner_signature_raw [of r s] by blast
qed

theorem kmsSigner_roundtrip_witness:
  "(255::nat) < 2 ^ 256 \<and> (7::nat) < 2 ^ 256 \<and> (255::nat) < 2 ^ 248
   \<and> kmsSigner_signature [0x30, 0x07, 0x02, 0x02, 0x00, 0xff, 0x02, 0x01, 0x07]
       = Some (Inr (replicate 31 0 @ [0xff] @ replicate 31 0 @ [0x07]))
   \<and> kmsSigner_signature [0x30, 0x06, 0x02, 0x01, 0xff, 0x02, 0x01, 0x07]
       = Some (Inr (replicate 31 0 @ [0xff] @ replicate 31 0 @ [0x07]))
   \<and> azureSigner_signature (replicate 31 0 @ [0xff] @ replicate 31 0 @ [0x07])
       = replicate 31 0 @ [0xff] @ replicate 31 0 @ [0x07]
   \<and> kmsSigner_signature (replicate 31 0 @ [0xff] @ replicate 31 0 @ [0x07])
       = Some (Inl ReporterError)"
proof -
  have a: "der_signature_padded True False 255 7 = [0x30, 0x07, 0x02, 0x02, 0x00, 0xff, 0x02, 0x01, 0x07]"
    by code_simp
  have b: "der_signature_padded False False 255 7 = [0x30, 0x06, 0x02, 0x01, 0xff, 0x02, 0x01, 0x07]"
    by code_simp
  have c: "be_fixed 32 255 @ be_fixed 32 7 = replicate 31 0 @ [0xff] @ replicate 31 0 @ [0x07]"
    by code_simp
  from kmsSigner_roundtrip [of 255 7 True False] kmsSigner_roundtrip [of 255 7 False False]
  show ?thesis
    by (simp add: a b c)
qed

text \<open>
  C7 as stated fails at the raw signature \<open>r = 1\<close>, \<open>s = 2\<close>: the r/s
  reconstruction of \<open>kmsSigner\<close> does not return it unchanged, it throws.
\<close>

theorem kmsSigner_raw_input:
  "be_fixed 32 1 @ be_fixed 32 2 = replicate 31 0 @ [0x01] @ replicate 31 0 @ [0x02]
   \<and> kmsSigner_signature (replicate 31 0 @ [0x01] @ replicate 31 0 @ [0x02])
       = Some (Inl ReporterError)"
  by code_simp

subsection \<open>Fields of a composite signature\<close>

lemma String_split_not_Nil: "String_split sep str \<noteq> []"
  by (induction str) (auto split: list.splits)

lemma String_split_field:
  "sep \<notin> set field \<Longrightarrow> String_split sep (field @ sep # rest) = field # String_split sep rest"
  by (induction field) (auto split: list.splits)

lemma String_split_last_field:
  "sep \<notin> set field \<Longrightarrow> String_split sep field = [field]"
  by (induction field) (auto split: list.splits)

lemma vaultSigner_signature_three_fields:
  assumes "CHR '':'' \<notin> set f0" and "CHR '':'' \<notin> set f1" and "CHR '':'' \<notin> set f2"
  shows "vaultSigner_signature (f0 @ CHR '':'' # f1 @ CHR '':'' # f2) = Inr (from_base64 f2)"
    and "String_split CHR '':'' (f0 @ CHR '':'' # f1 @ CHR '':'' # f2) = [f0, f1, f2]"
  using assms
  by (simp_all add: vaultSigner_signature_def index_def String_split_field String_split_last_field)

lemma vaultSigner_signature_index:
  "vaultSigner_signature signature =
     (if length (String_split CHR '':'' signature) \<le> 2 then Inl TypeError
      else Inr (from_base64 (String_split CHR '':'' signature ! 2)))"
  by (simp add: vaultSigner_signature_def index_def)

text \<open>
  C3, as the code has it. \<open>vaultSigner\<close> decodes the third colon-delimited
  field, the one at index 2. For a composite string of exactly three fields, such
  as \<open>1:1:<base64>\<close>, that is the last field, and the result is its base64
  decoding; with more fields it is still the third, and with fewer the call throws
  a \<open>TypeError\<close>.
\<close>

theorem vaultSigner_third_field:
  "(CHR '':'' \<notin> set f0 \<and> CHR '':'' \<notin> set f1 \<and> CHR '':'' \<notin> set f2 \<longrightarrow>
      String_split CHR '':'' (f0 @ CHR '':'' # f1 @ CHR '':'' # f2) = [f0, f1, f2]
      \<and> vaultSigner_signature (f0 @ CHR '':'' # f1 @ CHR '':'' # f2) = Inr (from_base64 f2))
   \<and> vaultSigner_signature signature =
       (if length (String_split CHR '':'' signature) \<le> 2 then Inl TypeError
        else Inr (from_base64 (String_split CHR '':'' signature ! 2)))"
  using vaultSigner_signature_three_fields [of f0 f1 f2] vaultSigner_signature_index [of signature]
  by blast

theorem vaultSigner_third_field_witness:
  "CHR '':'' \<notin> set ''vault'' \<and> CHR '':'' \<notin> set ''v1'' \<and> CHR '':'' \<notin> set ''QUJD''
   \<and> String_split CHR '':'' ''vault:v1:QUJD'' = [''vault'', ''v1'', ''QUJD'']
   \<and> vaultSigner_signature ''vault:v1:QUJD'' = Inr [0x41, 0x42, 0x43]"
proof -
  have "from_base64 ''QUJD'' = [0x41, 0x42, 0x43]"
    by code_simp
  with vaultSigner_third_field [of "''vault''" "''v1''" "''QUJD''"] show ?thesis
    by simp
qed

text \<open>
  C3 as stated fails with three prefix fields: the result is the decoding of the
  third field \<open>QUJD\<close>, not of the last field \<open>REVG\<close>. With one prefix field
  the call throws.
\<close>

theorem vaultSigner_more_fields:
  "String_split CHR '':'' ''1:1:QUJD:REVG'' = [''1'', ''1'', ''QUJD'', ''REVG'']
   \<and> vaultSigner_signature ''1:1:QUJD:REVG'' = Inr [0x41, 0x42, 0x43]
   \<and> from_base64 ''REVG'' = [0x44, 0x45, 0x46]
   \<and> vaultSigner_signature ''1:QUJD'' = Inl TypeError"
  by code_simp

subsection \<open>The calls of the HSM-vault signer\<close>

lemma azureSigner_calls:
  "snd (azureSigner keyClient name bytesToSign calls) =
     calls @ (case getKey keyClient name of
                Inl e \<Rightarrow> [GetKey name]
              | Inr k \<Rightarrow> [GetKey name, NewCryptographyClient (key_id k),
                          Sign (key_id k) ''ES256K'' (keccak256 bytesToSign)])"
  by (simp add: azureSigner_def Let_def split: sum.split)

lemma key_fetches_azureSigner:
  "key_fetches (snd (azureSigner keyClient name bytesToSign calls)) = key_fetches calls + 1"
  by (simp add: azureSigner_calls key_fetches_def split: sum.split)

lemma key_fetches_azureSigner_each:
  "key_fetches (snd (azureSigner_each keyClient name payloads calls))
   = key_fetches calls + length payloads"
proof (induction payloads arbitrary: calls)
  case Nil
  show ?case by simp
next
  case (Cons p ps)
  obtain r calls1 where 1: "azureSigner keyClient name p calls = (r, calls1)"
    by (cases "azureSigner keyClient name p calls")
  obtain rs calls2 where 2: "azureSigner_each keyClient name ps calls1 = (rs, calls2)"
    by (cases "azureSigner_each keyClient name ps calls1")
  from key_fetches_azureSigner [of keyClient name p calls] 1
  have "key_fetches calls1 = key_fetches calls + 1" by simp
  moreover from Cons.IH [of calls1] 2
  have "key_fetches calls2 = key_fetches calls1 + length ps" by simp
  ultimately show ?case by (simp add: 1 2)
qed

lemma sign_requests_azureSigner_each:
  assumes "getKey keyClient name = Inr k"
  shows "sign_requests (snd (azureSigner_each keyClient name payloads calls))
           = sign_requests calls + length payloads
       \<and> client_constructions (snd (azureSigner_each keyClient name payloads calls))
           = client_constructions calls + length payloads"
proof (induction payloads arbitrary: calls)
  case Nil
  show ?case by simp
next
  case (Cons p ps)
  obtain r calls1 where 1: "azureSigner keyClient name p calls = (r, calls1)"
    by (cases "azureSigner keyClient name p calls")
  obtain rs calls2 where 2: "azureSigner_each keyClient name ps calls1 = (rs, calls2)"
    by (cases "azureSigner_each keyClient name ps calls1")
  from azureSigner_calls [of keyClient name p calls] 1 assms
  have "calls1 = calls @ [GetKey name, NewCryptographyClient (key_id k),
                          Sign (key_id k) ''ES256K'' (keccak256 p)]" by simp
  then have "sign_requests calls1 = sign_requests calls + 1"
    and "client_constructions calls1 = client_constructions calls + 1"
    by (simp_all add: sign_requests_def client_constructions_def)
  moreover from Cons.IH [of calls1] 2
  have "sign_requests calls2 = sign_requests calls1 + length ps"
    and "client_constructions calls2 = client_constructions calls1 + length ps" by simp_all
  ultimately show ?case by (simp add: 1 2)
qed

text \<open>
  C9. Every call of \<open>azureSigner\<close> asks the vault for the key again: after
  \<open>n\<close> calls the log holds \<open>n\<close> more \<open>getKey\<close> requests, whatever the vault
  answers. When the vault answers with the key, the call goes on to make a new
  \<open>CryptographyClient\<close> for its identifier and then to send the one \<open>sign\<close>
  request, in this order, so \<open>n\<close> calls also make \<open>n\<close> clients and send \<open>n\<close>
  signing requests: nothing is kept from one call to the next.
\<close>

theorem azureSigner_fetches_key_every_call:
  "key_fetches (snd (azureSigner_each keyClient name payloads calls))
     = key_fetches calls + length payloads
   \<and> (getKey keyClient name = Inr k \<longrightarrow>
        snd (azureSigner keyClient name bytesToSign calls)
          = calls @ [GetKey name, NewCryptographyClient (key_id k),
                     Sign (key_id k) ''ES256K'' (keccak256 bytesToSign)]
        \<and> client_constructions (snd (azureSigner_each keyClient name payloads calls))
          = client_constructions calls + length payloads
        \<and> sign_requests (snd (azureSigner_each keyClient name payloads calls))
          = sign_requests calls + length payloads)"
  using key_fetches_azureSigner_each [of keyClient name payloads calls]
    sign_requests_azureSigner_each [of keyClient name k payloads calls]
    azureSigner_calls [of keyClient name bytesToSign calls]
  by simp

theorem azureSigner_fetches_key_every_call_witness:
  "getKey test_vault ''hedera'' = Inr \<lparr>key_id = ''https://vault/keys/hedera'',
       key_jwk = \<lparr>kty = ''EC-HSM'', crv = ''P-256K'', x_coord = generator_x, y_coord = generator_y\<rparr>\<rparr>
   \<and> snd (azureSigner test_vault ''hedera'' [0x61] [])
       = [GetKey ''hedera'', NewCryptographyClient ''https://vault/keys/hedera'',
          Sign ''https://vault/keys/hedera'' ''ES256K'' (keccak256 [0x61])]
   \<and> key_fetches (snd (azureSigner_each test_vault ''hedera'' [[0x61], [0x62], [0x63]] [])) = 3
   \<and> client_constructions (snd (azureSigner_each test_vault ''hedera'' [[0x61], [0x62], [0x63]] [])) = 3
   \<and> sign_requests (snd (azureSigner_each test_vault ''hedera'' [[0x61], [0x62], [0x63]] [])) = 3"
proof -
  have g: "getKey test_vault ''hedera'' = Inr \<lparr>key_id = ''https://vault/keys/hedera'',
       key_jwk = \<lparr>kty = ''EC-HSM'', crv = ''P-256K'', x_coord = generator_x, y_coord = generator_y\<rparr>\<rparr>"
    by (simp add: test_vault_def)
  from azureSigner_fetches_key_every_call [of test_vault "''hedera''" "[[0x61], [0x62], [0x63]]" "[]"
      "\<lparr>key_id = ''https://vault/keys/hedera'',
        key_jwk = \<lparr>kty = ''EC-HSM'', crv = ''P-256K'', x_coord = generator_x, y_coord = generator_y\<rparr>\<rparr>"
      "[0x61]"] g
  show ?thesis
    by (simp add: key_fetches_def client_constructions_def sign_requests_def)
qed

subsection \<open>What the HSM-vault signer returns\<close>

text \<open>
  C8, as the code has it. \<open>azureSigner\<close> returns the bytes of the vault's answer
  as they are, whatever their length and first byte: it looks for no layout and
  decodes no DER. A raw 64-byte signature passes through unchanged, and so does
  anything else.
\<close>

theorem azureSigner_returns_response:
  assumes "getKey keyClient name = Inr k"
    and "sign keyClient (key_id k) ''ES256K'' (keccak256 bytesToSign) = Inr result"
  shows "fst (azureSigner keyClient name bytesToSign calls) = Inr result"
  using assms by (simp add: azureSigner_def azureSigner_signature_def Let_def)

theorem azureSigner_returns_response_witness:
  "getKey test_vault ''hedera'' = Inr \<lparr>key_id = ''https://vault/keys/hedera'',
       key_jwk = \<lparr>kty = ''EC-HSM'', crv = ''P-256K'', x_coord = generator_x, y_coord = generator_y\<rparr>\<rparr>
   \<and> sign test_vault ''https://vault/keys/hedera'' ''ES256K'' (keccak256 [0x61])
       = Inr [0x30, 0x06, 0x02, 0x01, 0x01, 0x02, 0x01, 0x02]
   \<and> fst (azureSigner test_vault ''hedera'' [0x61] []) = Inr [0x30, 0x06, 0x02, 0x01, 0x01, 0x02, 0x01, 0x02]"
proof -
  have g: "getKey test_vault ''hedera'' = Inr \<lparr>key_id = ''https://vault/keys/hedera'',
       key_jwk = \<lparr>kty = ''EC-HSM'', crv = ''P-256K'', x_coord = generator_x, y_coord = generator_y\<rparr>\<rparr>"
    by (simp add: test_vault_def)
  have s: "sign test_vault ''https://vault/keys/hedera'' ''ES256K'' (keccak256 [0x61])
       = Inr [0x30, 0x06, 0x02, 0x01, 0x01, 0x02, 0x01, 0x02]"
    by (simp add: test_vault_def)
  from azureSigner_returns_response [OF g, of "[0x61]" "[0x30, 0x06, 0x02, 0x01, 0x01, 0x02, 0x01, 0x02]" "[]"] g s
  show ?thesis by simp
qed

text \<open>
  C8 as stated fails when the vault answers with a DER signature: the eight bytes
  come back as they are, not as the 64 bytes that DER decoding gives.
\<close>

theorem azureSigner_does_not_decode_der:
  "fst (azureSigner test_vault ''hedera'' [0x61] []) = Inr [0x30, 0x06, 0x02, 0x01, 0x01, 0x02, 0x01, 0x02]
   \<and> kmsSigner_signature [0x30, 0x06, 0x02, 0x01, 0x01, 0x02, 0x01, 0x02]
       = Some (Inr (replicate 31 0 @ [0x01] @ replicate 31 0 @ [0x02]))
   \<and> length [0x30, 0x06, 0x02, 0x01, 0x01, 0x02, 0x01, 0x02 :: byte] = 8"
proof -
  have "fst (azureSigner test_vault ''hedera'' [0x61] []) = Inr [0x30, 0x06, 0x02, 0x01, 0x01, 0x02, 0x01, 0x02]"
    by (simp add: azureSigner_def azureSigner_signature_def test_vault_def Let_def)
  moreover have "kmsSigner_signature [0x30, 0x06, 0x02, 0x01, 0x01, 0x02, 0x01, 0x02]
       = Some (Inr (replicate 31 0 @ [0x01] @ replicate 31 0 @ [0x02]))"
    by code_simp
  ultimately show ?thesis by simp
qed

subsection \<open>Fetching the public key\<close>

lemma fetchKmsPublicKey_calls:
  "snd (fetchKmsPublicKey crypto kmsClient version calls) = calls @ [GetPublicKey version]"
  by (simp add: fetchKmsPublicKey_def Let_def split: sum.split)

lemma fetchAzurePublicKey_calls:
  "snd (fetchAzurePublicKey crypto keyClient name calls) = calls @ [GetKey name]"
  by (simp add: fetchAzurePublicKey_def Let_def split: sum.split)

lemma public_key_fetches_times:
  "public_key_fetches (snd (fetchKmsPublicKey_times n crypto kmsClient version calls))
   = public_key_fetches calls + n"
proof (induction n arbitrary: calls)
  case 0
  show ?case by simp
next
  case (Suc n)
  obtain r calls1 where 1: "fetchKmsPublicKey crypto kmsClient version calls = (r, calls1)"
    by (cases "fetchKmsPublicKey crypto kmsClient version calls")
  obtain rs calls2 where 2: "fetchKmsPublicKey_times n crypto kmsClient version calls1 = (rs, calls2)"
    by (cases "fetchKmsPublicKey_times n crypto kmsClient version calls1")
  from fetchKmsPublicKey_calls [of crypto kmsClient version calls] 1
  have "public_key_fetches calls1 = public_key_fetches calls + 1"
    by (simp add: public_key_fetches_def)
  moreover from Suc.IH [of calls1] 2
  have "public_key_fetches calls2 = public_key_fetches calls1 + n" by simp
  ultimately show ?case by (simp add: 1 2)
qed

lemma key_fetches_times:
  "key_fetches (snd (fetchAzurePublicKey_times n crypto keyClient name calls))
   = key_fetches calls + n"
proof (induction n arbitrary: calls)
  case 0
  show ?case by simp
next
  case (Suc n)
  obtain r calls1 where 1: "fetchAzurePublicKey crypto keyClient name calls = (r, calls1)"
    by (cases "fetchAzurePublicKey crypto keyClient name calls")
  obtain rs calls2 where 2: "fetchAzurePublicKey_times n crypto keyClient name calls1 = (rs, calls2)"
    by (cases "fetchAzurePublicKey_times n crypto keyClient name calls1")
  from fetchAzurePublicKey_calls [of crypto keyClient name calls] 1
  have "key_fetches calls1 = key_fetches calls + 1"
    by (simp add: key_fetches_def)
  moreover from Suc.IH [of calls1] 2
  have "key_fetches calls2 = key_fetches calls1 + n" by simp
  ultimately show ?case by (simp add: 1 2)
qed

text \<open>
  C6, as the code has it. Every call of \<open>fetchKmsPublicKey\<close> sends one
  \<open>getPublicKey\<close> request and every call of \<open>fetchAzurePublicKey\<close> one
  \<open>getKey\<close> request: \<open>n\<close> calls send \<open>n\<close> requests. Nothing is memoized; the
  scripts call the function once and pass the key object on.
\<close>

theorem fetch_public_key_every_call:
  "public_key_fetches (snd (fetchKmsPublicKey_times n crypto kmsClient version calls))
     = public_key_fetches calls + n
   \<and> key_fetches (snd (fetchAzurePublicKey_times n crypto' keyClient name calls'))
     = key_fetches calls' + n"
  by (simp add: public_key_fetches_times key_fetches_times)

text \<open>
  C6 as stated fails: two calls on the same backend send two requests, not one.
\<close>

theorem fetch_public_key_twice:
  "public_key_fetches (snd (fetchKmsPublicKey_times 2 secp256k1_crypto test_kms ''version-1'' [])) = 2
   \<and> key_fetches (snd (fetchAzurePublicKey_times 2 secp256k1_crypto test_vault ''hedera'' [])) = 2"
  using public_key_fetches_times [of 2 secp256k1_crypto test_kms "''version-1''" "[]"]
    key_fetches_times [of 2 secp256k1_crypto test_vault "''hedera''" "[]"]
  by (simp add: public_key_fetches_def key_fetches_def)

subsection \<open>One key, two backends\<close>

lemma generator_x_value:
  "bn_of_bytes generator_x = 0x79BE667EF9DCBBAC55A06295CE870B07029BFCDB2DCE28D959F2815B16F81798"
  by (simp add: bn_of_bytes_def generator_x_def)

lemma generator_y_value:
  "bn_of_bytes generator_y = 0x483ADA7726A3C4655DA4FBFC0E1108A8FD17B448A68554199C47D08FFB10D4B8"
  by (simp add: bn_of_bytes_def generator_y_def)

lemma generator_on_curve: "on_secp256k1 (bn_of_bytes generator_x, bn_of_bytes generator_y)"
proof -
  define p :: nat where "p = 115792089237316195423570985008687907853269984665640564039457584007908834671663"
  define r :: nat where "r = 32748224938747404814623910738487752935528512903530129802856995983256684603122"
  define gx :: nat where "gx = 55066263022277343669578718895168534326250603453777594175500187360389116729240"
  define gy :: nat where "gy = 32670510020758816978083085130507043184471273380659243275938904335757337482424"
  have p: "secp256k1_p = p"
    by (simp add: secp256k1_p_def p_def)
  have "gy * gy = 9217920084583157935602994580951900810186344190718383666107426471107247357458 * p + r"
    by (simp add: gx_def gy_def p_def r_def)
  then have "(gy * gy) mod p = r mod p"
    by (simp only: mod_mult_self3)
  moreover have "gx * gx * gx + 7 = 1442042049659660869506300006036683750029629333882594701370927246876626245108445140822412359839636311708589143988241317295940670619760105320846347035878395 * p + r"
    by (simp add: gx_def gy_def p_def r_def)
  then have "(gx * gx * gx + 7) mod p = r mod p"
    by (simp only: mod_mult_self3)
  moreover have "gx < p" and "gy < p"
    by (simp_all add: gx_def gy_def p_def)
  moreover have "bn_of_bytes generator_x = gx" and "bn_of_bytes generator_y = gy"
    by (simp_all add: generator_x_value generator_y_value gx_def gy_def)
  ultimately show ?thesis
    by (simp add: on_secp256k1_def p)
qed

lemma key_of_generator:
  "key_of_coordinates generator_x generator_y = Inr (bn_of_bytes generator_x, bn_of_bytes generator_y)"
  using generator_on_curve by (simp add: key_of_coordinates_def)

lemma key_of_generator_jwk:
  "key_of_jwk \<lparr>kty = ''EC'', crv = ''secp256k1'', x_coord = toString_base64url generator_x,
               y_coord = toString_base64url generator_y\<rparr>
   = Inr (bn_of_bytes generator_x, bn_of_bytes generator_y)"
  by (simp add: key_of_jwk_def from_base64_toString_base64url key_of_generator)

lemma generator_pem_body:
  "pem_body generator_pem = Some ''MFYwEAYHKoZIzj0CAQYFK4EEAAoDQgAEeb5mfvncu6xVoGKVzocLBwKb/NstzijZWfKBWxb4F5hIOtp3JqPEZV2k+/wOEQio/Re0SKaFVBmcR9CP+xDUuA==''"
  by code_simp

lemma generator_pem_der:
  "from_base64 ''MFYwEAYHKoZIzj0CAQYFK4EEAAoDQgAEeb5mfvncu6xVoGKVzocLBwKb/NstzijZWfKBWxb4F5hIOtp3JqPEZV2k+/wOEQio/Re0SKaFVBmcR9CP+xDUuA==''
   = spki_prefix @ generator_x @ generator_y"
  by code_simp

lemma key_of_generator_pem:
  "key_of_pem generator_pem = Inr (bn_of_bytes generator_x, bn_of_bytes generator_y)"
proof -
  have l: "length spki_prefix = 24" "length generator_x = 32" "length generator_y = 32"
    by (simp_all add: spki_prefix_def generator_x_def generator_y_def)
  then show ?thesis
    by (simp add: key_of_pem_def generator_pem_body generator_pem_der key_of_generator)
qed

lemma pem_body_crlf:
  "pem_body (''-----BEGIN PUBLIC KEY-----'' @ [CHR 0x0D, CHR 0x0A] @
             ''MFYwEAYHKoZIzj0CAQYFK4EEAAoDQgAEeb5mfvncu6xVoGKVzocLBwKb/NstzijZ'' @ [CHR 0x0D, CHR 0x0A] @
             ''WfKBWxb4F5hIOtp3JqPEZV2k+/wOEQio/Re0SKaFVBmcR9CP+xDUuA=='' @ [CHR 0x0D, CHR 0x0A] @
             ''-----END PUBLIC KEY-----'' @ [CHR 0x0D, CHR 0x0A])
   = pem_body generator_pem"
  by code_simp

lemma generator_spki_hex:
  "toString_hex (spki_der (bn_of_bytes generator_x, bn_of_bytes generator_y)) = generator_hex"
proof -
  have "be_fixed 32 (bn_of_bytes generator_x) = generator_x"
    by (rule be_fixed_bn_of_bytes) (simp add: generator_x_def)
  moreover have "be_fixed 32 (bn_of_bytes generator_y) = generator_y"
    by (rule be_fixed_bn_of_bytes) (simp add: generator_y_def)
  moreover have "toString_hex (spki_prefix @ generator_x @ generator_y) = generator_hex"
    by code_simp
  ultimately show ?thesis
    by (simp add: spki_der_def)
qed

text \<open>
  C4. For a vault key with \<open>kty = "EC-HSM"\<close> and \<open>crv = "P-256K"\<close>,
  \<open>fetchAzurePublicKey\<close> rewrites \<open>kty\<close> to \<open>"EC"\<close> and \<open>crv\<close> to
  \<open>"secp256k1"\<close>, turns the coordinate buffers into base64url text (no padding,
  decoding to the same bytes), has \<open>createPublicKey\<close> read the JWK, and gives the
  hex text of the key's SPKI DER. When \<open>createPublicKey\<close> reads the same key
  object from the PEM of the cloud-KMS backend, \<open>fetchKmsPublicKey\<close> gives the
  same result.
\<close>

theorem fetch_public_key_same_hex:
  assumes "getKey keyClient name
             = Inr \<lparr>key_id = i, key_jwk = \<lparr>kty = ''EC-HSM'', crv = ''P-256K'', x_coord = xs, y_coord = ys\<rparr>\<rparr>"
    and "createPublicKey_jwk crypto
             \<lparr>kty = ''EC'', crv = ''secp256k1'', x_coord = toString_base64url xs,
              y_coord = toString_base64url ys\<rparr> = Inr keyObject"
    and "getPublicKey kmsClient version = Inr pem"
    and "createPublicKey_pem crypto pem = Inr keyObject"
  shows "rewrite_azureJwk \<lparr>kty = ''EC-HSM'', crv = ''P-256K'', x_coord = xs, y_coord = ys\<rparr>
           = \<lparr>kty = ''EC'', crv = ''secp256k1'', x_coord = toString_base64url xs,
              y_coord = toString_base64url ys\<rparr>
       \<and> CHR ''='' \<notin> set (toString_base64url xs) \<and> from_base64 (toString_base64url xs) = xs
       \<and> CHR ''='' \<notin> set (toString_base64url ys) \<and> from_base64 (toString_base64url ys) = ys
       \<and> fst (fetchAzurePublicKey crypto keyClient name calls)
           = Inr (PublicKey_fromString (toString_hex (export_spki_der crypto keyObject)))
       \<and> fst (fetchKmsPublicKey crypto kmsClient version calls')
           = fst (fetchAzurePublicKey crypto keyClient name calls)"
proof -
  have r: "rewrite_azureJwk \<lparr>kty = ''EC-HSM'', crv = ''P-256K'', x_coord = xs, y_coord = ys\<rparr>
           = \<lparr>kty = ''EC'', crv = ''secp256k1'', x_coord = toString_base64url xs,
              y_coord = toString_base64url ys\<rparr>"
    by (simp add: rewrite_azureJwk_def)
  have a: "fst (fetchAzurePublicKey crypto keyClient name calls)
           = Inr (PublicKey_fromString (toString_hex (export_spki_der crypto keyObject)))"
    using assms(1,2) by (simp add: fetchAzurePublicKey_def r Let_def)
  have k: "fst (fetchKmsPublicKey crypto kmsClient version calls')
           = Inr (PublicKey_fromString (toString_hex (export_spki_der crypto keyObject)))"
    using assms(3,4) by (simp add: fetchKmsPublicKey_def Let_def)
  from r a k show ?thesis
    by (simp add: toString_base64url_unpadded from_base64_toString_base64url)
qed

theorem fetch_public_key_same_hex_witness:
  "getKey test_vault ''hedera''
     = Inr \<lparr>key_id = ''https://vault/keys/hedera'',
            key_jwk = \<lparr>kty = ''EC-HSM'', crv = ''P-256K'', x_coord = generator_x, y_coord = generator_y\<rparr>\<rparr>
   \<and> createPublicKey_jwk secp256k1_crypto
         \<lparr>kty = ''EC'', crv = ''secp256k1'', x_coord = toString_base64url generator_x,
          y_coord = toString_base64url generator_y\<rparr>
       = Inr (bn_of_bytes generator_x, bn_of_bytes generator_y)
   \<and> getPublicKey test_kms ''version-1'' = Inr generator_pem
   \<and> createPublicKey_pem secp256k1_crypto generator_pem
       = Inr (bn_of_bytes generator_x, bn_of_bytes generator_y)
   \<and> fst (fetchAzurePublicKey secp256k1_crypto test_vault ''hedera'' [])
       = Inr (PublicKey_fromString generator_hex)
   \<and> fst (fetchKmsPublicKey secp256k1_crypto test_kms ''version-1'' [])
       = Inr (PublicKey_fromString generator_hex)"
proof -
  have 1: "getKey test_vault ''hedera''
     = Inr \<lparr>key_id = ''https://vault/keys/hedera'',
            key_jwk = \<lparr>kty = ''EC-HSM'', crv = ''P-256K'', x_coord = generator_x, y_coord = generator_y\<rparr>\<rparr>"
    by (simp add: test_vault_def)
  have 2: "createPublicKey_jwk secp256k1_crypto
         \<lparr>kty = ''EC'', crv = ''secp256k1'', x_coord = toString_base64url generator_x,
          y_coord = toString_base64url generator_y\<rparr>
       = Inr (bn_of_bytes generator_x, bn_of_bytes generator_y)"
    by (simp add: secp256k1_crypto_def key_of_generator_jwk)
  have 3: "getPublicKey test_kms ''version-1'' = Inr generator_pem"
    by (simp add: test_kms_def)
  have 4: "createPublicKey_pem secp256k1_crypto generator_pem
       = Inr (bn_of_bytes generator_x, bn_of_bytes generator_y)"
    by (simp add: secp256k1_crypto_def key_of_generator_pem)
  have 5: "export_spki_der secp256k1_crypto = spki_der"
    by (simp add: secp256k1_crypto_def)
  from fetch_public_key_same_hex [OF 1 2 3 4, of "[]" "[]"] 1 2 3 4
  show ?thesis
    by (simp add: 5 generator_spki_hex)
qed

subsection \<open>What is sent to be signed\<close>

lemma keccak256_abc:
  "keccak256 [0x61, 0x62, 0x63] =
     [0x4e, 0x03, 0x65, 0x7a, 0xea, 0x45, 0xa9, 0x4f, 0xc7, 0xd4, 0x7b, 0xa8, 0x26, 0xc8, 0xd6, 0x67,
      0xc0, 0xd1, 0xe6, 0xe3, 0x3a, 0x64, 0xa0, 0x36, 0xec, 0x44, 0xf5, 0x8f, 0xa1, 0x2d, 0x6c, 0x45]"
  by code_simp

lemma SHA256_abc:
  "SHA256 [0x61, 0x62, 0x63] =
     [0xba, 0x78, 0x16, 0xbf, 0x8f, 0x01, 0xcf, 0xea, 0x41, 0x41, 0x40, 0xde, 0x5d, 0xae, 0x22, 0x23,
      0xb0, 0x03, 0x61, 0xa3, 0x96, 0x17, 0x7a, 0x9c, 0xb4, 0x10, 0xff, 0x61, 0xf2, 0x00, 0x15, 0xad]"
  by code_simp

lemma toString_base64_abc: "toString_base64 [0x61, 0x62, 0x63] = ''YWJj''"
  by code_simp

lemma kmsSigner_calls:
  "snd (kmsSigner kmsClient version bytesToSign calls)
   = calls @ [AsymmetricSign \<lparr>request_name = version,
                              request_digest = \<lparr>sha256 = keccak256 bytesToSign\<rparr>\<rparr>]"
  by (simp add: kmsSigner_def Let_def split: sum.split)

lemma vaultSigner_calls:
  "snd (vaultSigner axios bytesToSign calls)
   = calls @ [Post ''/v1/transit/sign/hedera-key'' (toString_base64 bytesToSign)]"
  by (simp add: vaultSigner_def Let_def split: sum.split)

lemma secp256k1_signers_send_keccak256:
  "sha256_fields (snd (kmsSigner kmsClient version bytesToSign [])) = [keccak256 bytesToSign]
   \<and> (getKey keyClient name = Inr k \<longrightarrow>
        sign_digests (snd (azureSigner keyClient name bytesToSign [])) = [keccak256 bytesToSign])
   \<and> length (keccak256 bytesToSign) = 32"
  by (simp add: kmsSigner_calls sha256_fields_def azureSigner_calls sign_digests_def
      length_keccak256)

lemma vaultSigner_sends_base64:
  "post_inputs (snd (vaultSigner axios bytesToSign [])) = [toString_base64 bytesToSign]
   \<and> from_base64 (toString_base64 bytesToSign) = bytesToSign"
  by (simp add: vaultSigner_calls post_inputs_def from_base64_toString_base64)

lemma vaultSigner_sends_base64_abc:
  "post_inputs (snd (vaultSigner test_transit [0x61, 0x62, 0x63] [])) = [''YWJj'']"
  by (simp add: vaultSigner_calls post_inputs_def toString_base64_abc)

text \<open>
  C10. The one request of \<open>kmsSigner\<close> carries the Keccak-256 digest of the
  payload in its field \<open>sha256\<close>. The SHA-256 digest of the payload is in that
  field only if the two digests coincide.
\<close>

theorem kmsSigner_sha256_field:
  "snd (kmsSigner kmsClient version bytesToSign [])
     = [AsymmetricSign \<lparr>request_name = version,
                        request_digest = \<lparr>sha256 = keccak256 bytesToSign\<rparr>\<rparr>]
   \<and> sha256_fields (snd (kmsSigner kmsClient version bytesToSign [])) = [keccak256 bytesToSign]
   \<and> (SHA256 bytesToSign \<in> set (sha256_fields (snd (kmsSigner kmsClient version bytesToSign [])))
        \<longrightarrow> SHA256 bytesToSign = keccak256 bytesToSign)"
  by (simp add: kmsSigner_calls sha256_fields_def)

theorem kmsSigner_sha256_field_witness:
  "sha256_fields (snd (kmsSigner test_kms ''version-1'' [0x61, 0x62, 0x63] []))
     = [[0x4e, 0x03, 0x65, 0x7a, 0xea, 0x45, 0xa9, 0x4f, 0xc7, 0xd4, 0x7b, 0xa8, 0x26, 0xc8, 0xd6, 0x67,
         0xc0, 0xd1, 0xe6, 0xe3, 0x3a, 0x64, 0xa0, 0x36, 0xec, 0x44, 0xf5, 0x8f, 0xa1, 0x2d, 0x6c, 0x45]]
   \<and> SHA256 [0x61, 0x62, 0x63]
     = [0xba, 0x78, 0x16, 0xbf, 0x8f, 0x01, 0xcf, 0xea, 0x41, 0x41, 0x40, 0xde, 0x5d, 0xae, 0x22, 0x23,
        0xb0, 0x03, 0x61, 0xa3, 0x96, 0x17, 0x7a, 0x9c, 0xb4, 0x10, 0xff, 0x61, 0xf2, 0x00, 0x15, 0xad]
   \<and> SHA256 [0x61, 0x62, 0x63]
       \<notin> set (sha256_fields (snd (kmsSigner test_kms ''version-1'' [0x61, 0x62, 0x63] [])))"
  using kmsSigner_sha256_field [of test_kms "''version-1''" "[0x61, 0x62, 0x63]"]
  by (simp add: keccak256_abc SHA256_abc sha256_fields_def)

end
